theory Spec2Isabelle
  imports Complex_Main "HOL-Library.Sublist" "HOL-Library.Log_Nat"
begin

section \<open>Strings, exceptions and HTTP responses\<close>

text \<open>
  A Python \<open>str\<close> is modelled as a \<open>string\<close>; each \<open>char\<close> stands for one code point
  below 256. An exception is a value carrying its class and the text that \<open>str(e)\<close>
  returns; a function that can raise returns \<open>exn + 'a\<close> with \<open>Inl\<close> the raised exception.
\<close>

datatype exn =
    PlainException string
  | RequestException string
  | HTTPError string
  | TypeError string
  | ParseError string
  | OSError string
  | UnicodeEncodeError string
  | ZeroDivisionError string

fun str_exn :: "exn \<Rightarrow> string" where
  "str_exn (PlainException m) = m"
| "str_exn (RequestException m) = m"
| "str_exn (HTTPError m) = m"
| "str_exn (TypeError m) = m"
| "str_exn (ParseError m) = m"
| "str_exn (OSError m) = m"
| "str_exn (UnicodeEncodeError m) = m"
| "str_exn (ZeroDivisionError m) = m"

text \<open>
  What \<open>requests.get\<close> / \<open>requests.post\<close> does for one call: it raises, or it returns a
  response with a status code and a body. \<open>error_line\<close> is the message the library puts
  into the \<open>HTTPError\<close> that \<open>raise_for_status\<close> raises for this response.
\<close>

record response =
  status_code :: int
  body :: string
  error_line :: string

datatype http = Raises exn | Returns response

definition raise_for_status :: "response \<Rightarrow> exn + unit" where
  "raise_for_status r =
     (if 400 \<le> status_code r \<and> status_code r < 600 then Inl (HTTPError (error_line r))
      else Inr ())"

text \<open>\<open>needle in text\<close> on Python strings.\<close>

fun contains :: "string \<Rightarrow> string \<Rightarrow> bool" where
  "contains needle [] = (needle = [])"
| "contains needle (c # cs) = (prefix needle (c # cs) \<or> contains needle cs)"

text \<open>\<open>str.isspace\<close> on one code point below 256; also the class \<open>\s\<close> of \<open>re\<close>.\<close>

definition isspace :: "char \<Rightarrow> bool" where
  "isspace c = (let n = of_char c :: nat in
     (9 \<le> n \<and> n \<le> 13) \<or> (28 \<le> n \<and> n \<le> 32) \<or> n = 133 \<or> n = 160)"

definition strip :: "string \<Rightarrow> string" where
  "strip s = rev (dropWhile isspace (rev (dropWhile isspace s)))"

text \<open>
  \<open>re.search\<close>: the leftmost position at which the pattern matches. The three patterns of
  the program have the shape literal, greedy run of one character class, optional closing
  character; \<open>match_here\<close> matches that shape at the start of the text and returns group 1.
  The run is maximal, and no shorter run can match: the character after a shorter run
  belongs to the class, so it is not the closing character.
\<close>

definition match_here :: "string \<Rightarrow> (char \<Rightarrow> bool) \<Rightarrow> char option \<Rightarrow> string \<Rightarrow> string option" where
  "match_here lit cls closer txt =
     (if prefix lit txt then
        (let rest = drop (length lit) txt;
             grp = takeWhile cls rest;
             after = dropWhile cls rest
         in if grp = [] then None
            else (case closer of
                    None \<Rightarrow> Some grp
                  | Some c \<Rightarrow> (case after of [] \<Rightarrow> None
                               | a # _ \<Rightarrow> if a = c then Some grp else None)))
      else None)"

fun re_search :: "string \<Rightarrow> (char \<Rightarrow> bool) \<Rightarrow> char option \<Rightarrow> string \<Rightarrow> string option" where
  "re_search lit cls closer [] = match_here lit cls closer []"
| "re_search lit cls closer (c # cs) =
     (case match_here lit cls closer (c # cs) of
        Some g \<Rightarrow> Some g
      | None \<Rightarrow> re_search lit cls closer cs)"

section \<open>Remote search client (services.py)\<close>

definition fetch_fasta :: "string \<Rightarrow> http \<Rightarrow> exn + string" where
  "fetch_fasta accession h =
     (case h of
        Raises e \<Rightarrow> Inl e
      | Returns r \<Rightarrow>
          if status_code r \<noteq> 200 \<or> \<not> prefix ''>'' (body r)
          then Inl (PlainException (''Failed to fetch FASTA for '' @ accession))
          else Inr (strip (body r)))"

text \<open>\<open>re.search(r"RID = (\S+)", r.text)\<close>\<close>

definition search_rid :: "string \<Rightarrow> string option" where
  "search_rid txt = re_search ''RID = '' (\<lambda>c. \<not> isspace c) None txt"

definition submit_blast :: "string \<Rightarrow> string \<Rightarrow> http \<Rightarrow> exn + string" where
  "submit_blast fasta taxid h =
     (case h of
        Raises e \<Rightarrow> Inl e
      | Returns r \<Rightarrow>
          (case raise_for_status r of
             Inl e \<Rightarrow> Inl e
           | Inr _ \<Rightarrow>
               (case search_rid (body r) of
                  None \<Rightarrow> Inl (PlainException ''Failed to obtain RID from BLAST response'')
                | Some rid \<Rightarrow> Inr rid)))"

text \<open>
  The environment of one call of \<open>wait_for_blast\<close>: \<open>clock k\<close> is what the \<open>k\<close>-th call of
  \<open>time.time()\<close> returns (call 0 sets \<open>start_time\<close>, call \<open>k + 1\<close> is the one at the head of
  loop iteration \<open>k\<close>), and \<open>reply k\<close> is the outcome of the status request of iteration \<open>k\<close>.
  Clock readings are rationals, as every double is; the subtraction
  \<open>time.time() - start_time\<close> is taken exactly, without its rounding.
\<close>

record poll_env =
  clock :: "nat \<Rightarrow> rat"
  reply :: "nat \<Rightarrow> http"

text \<open>
  The classification of one status response. \<open>None\<close>: no terminal marker, the loop goes on.
\<close>

definition classify :: "string \<Rightarrow> string option" where
  "classify txt =
     (if contains ''Status=READY'' txt then
        (if contains ''ThereAreHits=yes'' txt then Some ''READY'' else Some ''NO_HITS'')
      else if contains ''Status=FAILED'' txt then Some ''FAILED''
      else None)"

text \<open>
  The text of the \<open>TypeError\<close> that Python raises for \<open>None > 0\<close>.
\<close>

definition none_gt_int :: string where
  "none_gt_int =
     CHR 0x27 # ''>' not supported between instances of 'NoneType' and 'int'' @ [CHR 0x27]"

text \<open>
  The \<open>while True\<close> loop. \<open>max_wait_time\<close> is \<open>None\<close> or an \<open>int\<close>; the test
  \<open>max_wait_time > 0\<close> is evaluated first and raises \<open>TypeError\<close> on \<open>None\<close>, outside
  the \<open>try\<close> of the loop body. \<open>attempts\<close> is the local counter of the source; it is
  returned with the status so that the iteration at which the loop ends can be stated.
  The loop may run forever: the result is then \<open>None\<close>.
\<close>

partial_function (option) wait_loop ::
  "int option \<Rightarrow> poll_env \<Rightarrow> rat \<Rightarrow> nat \<Rightarrow> (exn + string \<times> nat) option" where
  "wait_loop max_wait_time env start_time attempts =
     (let elapsed = clock env (Suc attempts) - start_time in
      case max_wait_time of
        None \<Rightarrow> Some (Inl (TypeError none_gt_int))
      | Some m \<Rightarrow>
          if 0 < m \<and> elapsed > of_int m then Some (Inr (''TIMEOUT'', attempts))
          else
            (case reply env attempts of
               Raises e \<Rightarrow> wait_loop max_wait_time env start_time (Suc attempts)
             | Returns r \<Rightarrow>
                 (case classify (body r) of
                    Some st \<Rightarrow> Some (Inr (st, Suc attempts))
                  | None \<Rightarrow> wait_loop max_wait_time env start_time (Suc attempts))))"

declare wait_loop.simps [code]

definition wait_for_blast_attempts :: "int option \<Rightarrow> poll_env \<Rightarrow> (exn + string \<times> nat) option" where
  "wait_for_blast_attempts max_wait_time env = wait_loop max_wait_time env (clock env 0) 0"

definition wait_for_blast :: "int option \<Rightarrow> poll_env \<Rightarrow> (exn + string) option" where
  "wait_for_blast max_wait_time env =
     map_option (map_sum id fst) (wait_for_blast_attempts max_wait_time env)"

definition fetch_result :: "http \<Rightarrow> exn + string" where
  "fetch_result h =
     (case h of
        Raises e \<Rightarrow> Inl e
      | Returns r \<Rightarrow> (case raise_for_status r of Inl e \<Rightarrow> Inl e | Inr _ \<Rightarrow> Inr (body r)))"

section \<open>Result parser (services.py)\<close>

text \<open>
  An \<open>xml.etree.ElementTree\<close> element: its tag, its \<open>text\<close> attribute (\<open>None\<close> when the element has no
  character data before its first child) and its children in document order.
\<close>

datatype element = Element (tag: string) (elem_text: "string option") (children: "element list")

text \<open>\<open>Element.iter()\<close>: the element and everything below it, in document order.\<close>

fun iter :: "element \<Rightarrow> element list" where
  "iter (Element t x cs) = Element t x cs # concat (map iter cs)"

text \<open>
  \<open>elem.find(".//T")\<close>: the first element of \<open>elem.iter(T)\<close> that is not \<open>elem\<close> itself,
  that is, the first element with that tag among the elements below \<open>elem\<close>, which
  \<open>below\<close> lists in document order.
\<close>

definition below :: "element \<Rightarrow> element list" where
  "below e = concat (map iter (children e))"

definition find_below :: "string \<Rightarrow> element \<Rightarrow> element option" where
  "find_below t e = List.find (\<lambda>d. tag d = t) (below e)"

text \<open>
  \<open>elem.findtext(T, default=d)\<close>: the text of the first child with tag \<open>T\<close>, the empty
  string when that child has no text, and \<open>d\<close> when there is no such child.
\<close>

definition findtext :: "string \<Rightarrow> string \<Rightarrow> element \<Rightarrow> string" where
  "findtext t dflt e =
     (case List.find (\<lambda>c. tag c = t) (children e) of
        None \<Rightarrow> dflt
      | Some c \<Rightarrow> (case elem_text c of None \<Rightarrow> [] | Some x \<Rightarrow> x))"

text \<open>\<open>re.search(r"\[([^\]]+)\]", hit_def)\<close>\<close>

definition search_species :: "string \<Rightarrow> string option" where
  "search_species hit_def = re_search ''['' (\<lambda>c. c \<noteq> CHR '']'') (Some (CHR '']'')) hit_def"

text \<open>
  \<open>parse_top_hit\<close> after \<open>ET.fromstring\<close>: the argument \<open>doc\<close> is the root element of the
  parsed document (\<open>root\<close> in the source).
\<close>

definition parse_root :: "element \<Rightarrow> string \<times> string \<times> string \<times> string" where
  "parse_root doc =
     (case find_below ''Hit'' doc of
        None \<Rightarrow> (''NA'', ''NA'', ''NA'', ''NA'')
      | Some hit \<Rightarrow>
          (let accession = findtext ''Hit_accession'' ''NA'' hit;
               hit_def = findtext ''Hit_def'' [] hit;
               species = (case search_species hit_def of Some g \<Rightarrow> g | None \<Rightarrow> ''NA'');
               (bit_score, evalue) =
                 (case find_below ''Hsp'' hit of
                    Some hsp \<Rightarrow> (findtext ''Hsp_bit-score'' ''NA'' hsp, findtext ''Hsp_evalue'' ''NA'' hsp)
                  | None \<Rightarrow> (''NA'', ''NA''))
           in (accession, species, bit_score, evalue)))"

text \<open>
  \<open>ET.fromstring\<close> is the library's parser: \<open>fromstring\<close> gives, for a text, the root of the
  document or the \<open>ParseError\<close> raised for a text that is not well-formed.
\<close>

definition parse_top_hit ::
  "(string \<Rightarrow> exn + element) \<Rightarrow> string \<Rightarrow> exn + string \<times> string \<times> string \<times> string" where
  "parse_top_hit fromstring xml_text =
     (case fromstring xml_text of Inl e \<Rightarrow> Inl e | Inr doc \<Rightarrow> Inr (parse_root doc))"

text \<open>\<open>re.search(r'/gene="([^"]+)"', r.text)\<close>\<close>

definition search_gene :: "string \<Rightarrow> string option" where
  "search_gene txt = re_search (''/gene='' @ [CHR 0x22]) (\<lambda>c. c \<noteq> CHR 0x22) (Some (CHR 0x22)) txt"

text \<open>
  The body of the \<open>try\<close> in \<open>fetch_gene_symbol\<close>: it raises, or it returns the match,
  or it falls through (\<open>Inr None\<close>).
\<close>

definition gene_lookup :: "http \<Rightarrow> exn + string option" where
  "gene_lookup h =
     (case h of
        Raises e \<Rightarrow> Inl e
      | Returns r \<Rightarrow>
          (case raise_for_status r of
             Inl e \<Rightarrow> Inl e
           | Inr _ \<Rightarrow> Inr (search_gene (body r))))"

text \<open>\<open>except Exception: pass\<close>, then \<open>return "NA"\<close>.\<close>

definition fetch_gene_symbol :: "http \<Rightarrow> exn + string" where
  "fetch_gene_symbol h =
     (case gene_lookup h of
        Inr (Some g) \<Rightarrow> Inr g
      | Inr None \<Rightarrow> Inr ''NA''
      | Inl e \<Rightarrow> Inr ''NA'')"

section \<open>Job store (database.py and the SQL of app.py)\<close>

text \<open>
  A row of table \<open>jobs\<close> without its key and without \<open>created_at\<close>, which no operation
  below reads; a row of table \<open>results\<close> without its autoincrement \<open>id\<close>: the rows are kept
  in insertion order, which is the order of that \<open>id\<close>. Every column of \<open>results\<close> is a
  nullable \<open>TEXT\<close>.
\<close>

record job =
  user_id :: "int option"
  organism :: "string option"
  progress :: int
  status :: string

record result_row =
  job_id :: "string option"
  accession :: "string option"
  top_hit :: "string option"
  gene :: "string option"
  species :: "string option"
  bit_score :: "string option"
  evalue :: "string option"

record store =
  jobs :: "string \<rightharpoonup> job"
  results :: "result_row list"

text \<open>
  \<open>INSERT INTO jobs (id, user_id, organism)\<close> with the defaults of the schema:
  \<open>progress\<close> 0 and \<open>status\<close> \<open>'RUNNING'\<close>.
\<close>

definition insert_job :: "string \<Rightarrow> int \<Rightarrow> string \<Rightarrow> store \<Rightarrow> store" where
  "insert_job jid uid org s =
     s\<lparr>jobs := (jobs s)(jid \<mapsto> \<lparr>user_id = Some uid, organism = Some org, progress = 0, status = ''RUNNING''\<rparr>)\<rparr>"

text \<open>\<open>UPDATE jobs SET ... WHERE id=?\<close> changes nothing when there is no such row.\<close>

definition update_job :: "string \<Rightarrow> (job \<Rightarrow> job) \<Rightarrow> store \<Rightarrow> store" where
  "update_job jid f s =
     (case jobs s jid of None \<Rightarrow> s | Some j \<Rightarrow> s\<lparr>jobs := (jobs s)(jid \<mapsto> f j)\<rparr>)"

definition mark_running :: "string \<Rightarrow> store \<Rightarrow> store" where
  "mark_running jid s = update_job jid (\<lambda>j. j\<lparr>status := ''RUNNING'', progress := 0\<rparr>) s"

definition update_progress :: "string \<Rightarrow> int \<Rightarrow> store \<Rightarrow> store" where
  "update_progress jid p s = update_job jid (\<lambda>j. j\<lparr>progress := p\<rparr>) s"

definition mark_done :: "string \<Rightarrow> store \<Rightarrow> store" where
  "mark_done jid s = update_job jid (\<lambda>j. j\<lparr>status := ''DONE'', progress := 100\<rparr>) s"

type_synonym fields = "string \<times> string \<times> string \<times> string \<times> string"

text \<open>The five computed fields are \<open>(top_hit, gene, species, bit_score, evalue)\<close>.\<close>

definition insert_result :: "string \<Rightarrow> string \<Rightarrow> fields \<Rightarrow> store \<Rightarrow> store" where
  "insert_result jid acc f s =
     (case f of (th, g, sp, bs, ev) \<Rightarrow>
        s\<lparr>results := results s @
           [\<lparr>job_id = Some jid, accession = Some acc, top_hit = Some th, gene = Some g,
             species = Some sp, bit_score = Some bs, evalue = Some ev\<rparr>]\<rparr>)"

text \<open>\<open>SELECT * FROM results WHERE job_id=?\<close>\<close>

definition select_results :: "store \<Rightarrow> string \<Rightarrow> result_row list" where
  "select_results s jid = filter (\<lambda>r. job_id r = Some jid) (results s)"

section \<open>Progress arithmetic\<close>

text \<open>
  \<open>int((i + 1) / total * 100)\<close> is computed in binary64: the quotient of the two integers
  is rounded to the nearest double, its product with 100 is rounded again, and \<open>int\<close>
  truncates (\<open>ntotal\<close> is \<open>total\<close> of the source). \<open>to_double\<close> is round-to-nearest, ties-to-even, on the rationals, with the
  subnormal range; it is the IEEE result for every magnitude below the overflow threshold.
\<close>

definition round_half_even :: "rat \<Rightarrow> int" where
  "round_half_even x =
     (let f = \<lfloor>x\<rfloor>; d = x - of_int f
      in if d < 1 / 2 then f else if 1 / 2 < d then f + 1 else if even f then f else f + 1)"

text \<open>\<open>ilog2 q\<close> is the exponent \<open>e\<close> with \<open>2^e \<le> q < 2^(e+1)\<close>, for \<open>q > 0\<close>.\<close>

definition ilog2 :: "rat \<Rightarrow> int" where
  "ilog2 q =
     (case quotient_of q of (a, b) \<Rightarrow>
        (let d = bitlen a - bitlen b in if 2 powi d \<le> q then d else d - 1))"

definition to_double :: "rat \<Rightarrow> rat" where
  "to_double q =
     (if q = 0 then 0
      else (let e = max (ilog2 \<bar>q\<bar>) (- 1022);
                u = 2 powi (e - 52)
            in sgn q * of_int (round_half_even (\<bar>q\<bar> / u)) * u))"

definition percent :: "nat \<Rightarrow> nat \<Rightarrow> exn + int" where
  "percent i ntotal =
     (if ntotal = 0 then Inl (ZeroDivisionError ''division by zero'')
      else Inr \<lfloor>to_double (to_double (of_nat (i + 1) / of_nat ntotal) * 100)\<rfloor>)"

section \<open>Job runner (app.py)\<close>

text \<open>
  What the outside world does while one accession is processed: the outcome of each
  request, the clock and the status service seen by the poll loop, the library's XML
  parser, the outcome of writing the XML file (\<open>None\<close>: written, \<open>Some e\<close>: \<open>open\<close> or
  \<open>write\<close> raises \<open>e\<close>), and whether the database transaction of this accession commits
  (\<open>False\<close>: one of its statements raises and nothing is stored).
\<close>

record acc_env =
  fasta_http :: http
  submit_http :: http
  poll :: poll_env
  result_http :: http
  fromstring :: "string \<Rightarrow> exn + element"
  gene_http :: http
  xml_write :: "exn option"
  db_commit :: bool

text \<open>
  The body of the first \<open>try\<close> of the loop, lines 126 to 158. \<open>Some (Inl e)\<close>: the body
  raises \<open>e\<close>; \<open>None\<close>: the poll loop never returns. \<open>time.sleep(3)\<close> changes nothing that
  is modelled.
\<close>

definition try_body :: "acc_env \<Rightarrow> string \<Rightarrow> string \<Rightarrow> int \<Rightarrow> (exn + fields) option" where
  "try_body env acc taxid timeout =
     (case fetch_fasta acc (fasta_http env) of
        Inl e \<Rightarrow> Some (Inl e)
      | Inr fasta \<Rightarrow>
     (case submit_blast fasta taxid (submit_http env) of
        Inl e \<Rightarrow> Some (Inl e)
      | Inr rid \<Rightarrow>
     (let wait_timeout = (if timeout = 0 then None else Some timeout) in
      case wait_for_blast wait_timeout (poll env) of
        None \<Rightarrow> None
      | Some (Inl e) \<Rightarrow> Some (Inl e)
      | Some (Inr st) \<Rightarrow>
          if st = ''READY'' then
            (case fetch_result (result_http env) of
               Inl e \<Rightarrow> Some (Inl e)
             | Inr xml \<Rightarrow>
            (case parse_top_hit (fromstring env) xml of
               Inl e \<Rightarrow> Some (Inl e)
             | Inr (th, sp, bs, ev) \<Rightarrow>
            (case fetch_gene_symbol (gene_http env) of
               Inl e \<Rightarrow> Some (Inl e)
             | Inr g \<Rightarrow>
            (case xml_write env of
               None \<Rightarrow> Some (Inr (th, g, sp, bs, ev))
             | Some (OSError m) \<Rightarrow> Some (Inr (th, g, sp, bs, ev))
             | Some e \<Rightarrow> Some (Inl e)))))
          else if st = ''NO_HITS'' then
            Some (Inr (''No hit'', ''No hit'', ''No hit'', ''No hit'', ''No hit''))
          else if st = ''TIMEOUT'' then
            Some (Inr (''TIMEOUT'', ''TIMEOUT'', ''BLAST search timed out'', ''NA'', ''NA''))
          else Some (Inr (''NA'', ''NA'', ''NA'', ''NA'', ''NA'')))))"

text \<open>The \<open>try\<close> with its \<open>except Exception as e\<close>.\<close>

definition process_accession :: "acc_env \<Rightarrow> string \<Rightarrow> string \<Rightarrow> int \<Rightarrow> fields option" where
  "process_accession env acc taxid timeout =
     (case try_body env acc taxid timeout of
        None \<Rightarrow> None
      | Some (Inr f) \<Rightarrow> Some f
      | Some (Inl e) \<Rightarrow> Some (''ERROR'', ''ERROR'', str_exn e, ''NA'', ''NA''))"

text \<open>
  The second \<open>try\<close> of the loop, lines 166 to 179: one transaction that inserts the row
  and updates the progress. When a statement raises, \<open>commit\<close> is not reached and the
  store keeps its state.
\<close>

definition save_result ::
  "bool \<Rightarrow> string \<Rightarrow> string \<Rightarrow> fields \<Rightarrow> nat \<Rightarrow> nat \<Rightarrow> store \<Rightarrow> store" where
  "save_result commit jid acc f i ntotal s =
     (case percent i ntotal of
        Inl e \<Rightarrow> s
      | Inr p \<Rightarrow> if commit then update_progress jid p (insert_result jid acc f s) else s)"

text \<open>
  The \<open>for\<close> loop over \<open>enumerate(accessions)\<close>, from index \<open>i\<close> on. The result is the
  list of the states of the store after each iteration that ended, and whether the loop
  ran to its end (\<open>False\<close>: a poll loop never returned).
\<close>

fun run_loop ::
  "(nat \<Rightarrow> acc_env) \<Rightarrow> string \<Rightarrow> nat \<Rightarrow> string \<Rightarrow> int \<Rightarrow> nat \<Rightarrow> string list \<Rightarrow> store
     \<Rightarrow> store list \<times> bool" where
  "run_loop env jid ntotal taxid timeout i [] s = ([], True)"
| "run_loop env jid ntotal taxid timeout i (acc # rest) s =
     (case process_accession (env i) acc taxid timeout of
        None \<Rightarrow> ([], False)
      | Some f \<Rightarrow>
          (let s' = save_result (db_commit (env i)) jid acc f i ntotal s;
               (tr, fin) = run_loop env jid ntotal taxid timeout (Suc i) rest s'
           in (s' # tr, fin)))"

text \<open>
  The environment of one job: whether the transaction that marks the job running
  commits, the environment of each accession by index, and whether the final
  transaction commits.
\<close>

record job_env =
  running_commit :: bool
  at_index :: "nat \<Rightarrow> acc_env"
  done_commit :: bool

text \<open>
  \<open>run_blast_job\<close>, started on store \<open>s\<close>. The result is the list of the states the store
  goes through, one per transaction attempted, and whether the function returns.
\<close>

definition run_blast_job ::
  "job_env \<Rightarrow> string \<Rightarrow> string list \<Rightarrow> string \<Rightarrow> int \<Rightarrow> store \<Rightarrow> store list \<times> bool" where
  "run_blast_job env jid accessions taxid timeout s =
     (let ntotal = length accessions in
      if \<not> running_commit env then ([], True)
      else
        (let s1 = mark_running jid s;
             (tr, fin) = run_loop (at_index env) jid ntotal taxid timeout 0 accessions s1
         in if \<not> fin then (s1 # tr, False)
            else (let s2 = last (s1 # tr)
                  in (s1 # tr @ [if done_commit env then mark_done jid s2 else s2], True))))"

text \<open>The store a job leaves behind when \<open>run_blast_job\<close> returns.\<close>

definition final_store :: "store \<Rightarrow> store list \<times> bool \<Rightarrow> store option" where
  "final_store s r = (if snd r then Some (last (s # fst r)) else None)"

section \<open>Read endpoints and job deletion (app.py)\<close>

text \<open>
  Flask's \<open>session\<close> is a dictionary; the handlers that consult it read the keys
  \<open>user_id\<close> and \<open>is_admin\<close>. Every handler takes the session of the request, whether its
  code reads it or not.
\<close>

type_synonym session = "string \<rightharpoonup> int"

datatype json = JInt int | JStr string

datatype flask_response =
    Json "(string \<times> json) list" int
  | PlainText string int
  | Redirect string
  | Template string "result_row list" string
  | Csv "string list" "(string \<times> string) list"

definition status_route :: "session \<Rightarrow> store \<Rightarrow> string \<Rightarrow> flask_response" where
  "status_route sess s jid =
     (case jobs s jid of
        None \<Rightarrow> Json [(''error'', JStr ''Invalid job ID'')] 404
      | Some row \<Rightarrow> Json [(''progress'', JInt (progress row)), (''status'', JStr (status row))] 200)"

text \<open>
  \<open>results.html\<close> is not part of the sources read here: the response is the template's
  name with the values handed to it.
\<close>

definition results_route :: "session \<Rightarrow> store \<Rightarrow> string \<Rightarrow> flask_response" where
  "results_route sess s jid = Template ''results.html'' (select_results s jid) jid"

definition headers :: "(string \<times> (result_row \<Rightarrow> string option)) list" where
  "headers = [(''accession'', accession), (''top_hit'', top_hit), (''gene'', gene),
              (''species'', species), (''bit_score'', bit_score), (''evalue'', evalue)]"

text \<open>\<open>sep.join(xs)\<close>\<close>

fun join :: "string \<Rightarrow> string list \<Rightarrow> string" where
  "join sep [] = []"
| "join sep [x] = x"
| "join sep (x # y # ys) = x @ sep @ join sep (y # ys)"

definition csv_values :: "result_row \<Rightarrow> string list" where
  "csv_values r = map (\<lambda>(h, col). case col r of Some v \<Rightarrow> v | None \<Rightarrow> ''NA'') headers"

text \<open>The chunks that the generator \<open>generate\<close> yields, in order.\<close>

definition generate :: "result_row list \<Rightarrow> string list" where
  "generate rows =
     (join '','' (map fst headers) @ [CHR 0x0A]) # map (\<lambda>r. join '','' (csv_values r) @ [CHR 0x0A]) rows"

definition download_csv :: "session \<Rightarrow> store \<Rightarrow> string \<Rightarrow> flask_response" where
  "download_csv sess s jid =
     Csv (generate (select_results s jid))
         [(''Content-Disposition'', ''attachment; filename=blast_results_'' @ jid @ ''.csv''),
          (''Content-Type'', ''text/csv'')]"

definition delete_job :: "session \<Rightarrow> store \<Rightarrow> string \<Rightarrow> flask_response \<times> store" where
  "delete_job sess s jid =
     (let is_admin = (case sess ''is_admin'' of Some v \<Rightarrow> v | None \<Rightarrow> 0) in
      if is_admin = 0 then (PlainText ''Unauthorized'' 403, s)
      else (Redirect ''dashboard'',
            s\<lparr>results := filter (\<lambda>r. job_id r \<noteq> Some jid) (results s),
              jobs := (jobs s)(jid := None)\<rparr>))"

section \<open>Notions of the specification and example inputs\<close>

definition page :: "int \<Rightarrow> string \<Rightarrow> http" where
  "page code b = Returns \<lparr>status_code = code, body = b, error_line = []\<rparr>"

definition ok_fasta :: http where
  "ok_fasta = page 200 (''>P01308 insulin'' @ [CHR 0x0A] @ ''MALWMRLLPL'' @ [CHR 0x0A])"

definition ok_submit :: http where
  "ok_submit = page 200 (''    RID = ABC123'' @ [CHR 0x0A] @ ''    RTOE = 20'')"

text \<open>
  A clock that is read at once after \<open>start_time\<close> was taken and then after each sleep of
  exactly 8 seconds.
\<close>

definition steady_clock :: "nat \<Rightarrow> rat" where
  "steady_clock k = 8 * of_nat (k - 1)"

text \<open>A status service that answers \<open>FAILED\<close> on the third check.\<close>

definition failed_on_third :: poll_env where
  "failed_on_third =
     \<lparr>clock = steady_clock,
      reply = (\<lambda>k. if k < 2 then page 200 ''Status=WAITING'' else page 200 ''Status=FAILED'')\<rparr>"

definition unused_http :: http where
  "unused_http = Raises (RequestException ''unreachable'')"

definition env_failed_on_third :: acc_env where
  "env_failed_on_third =
     \<lparr>fasta_http = ok_fasta, submit_http = ok_submit, poll = failed_on_third,
      result_http = unused_http, fromstring = (\<lambda>t. Inl (ParseError ''no element found'')),
      gene_http = unused_http, xml_write = None, db_commit = True\<rparr>"

definition all_commit :: "(nat \<Rightarrow> acc_env) \<Rightarrow> job_env" where
  "all_commit e = \<lparr>running_commit = True, at_index = e, done_commit = True\<rparr>"

definition empty_store :: store where
  "empty_store = \<lparr>jobs = Map.empty, results = []\<rparr>"

definition server_error :: response where
  "server_error =
     \<lparr>status_code = 500, body = ''/gene='' @ [CHR 0x22] @ ''INS'' @ [CHR 0x22],
      error_line = ''500 Server Error''\<rparr>"

definition no_gene :: response where
  "no_gene = \<lparr>status_code = 200, body = ''LOCUS NP_000198'', error_line = []\<rparr>"

text \<open>
  A status service that never reaches a terminal state: every status request raises or
  returns a text without a terminal marker.
\<close>

definition never_terminal :: "poll_env \<Rightarrow> bool" where
  "never_terminal env =
     (\<forall>k. case reply env k of Raises e \<Rightarrow> True | Returns r \<Rightarrow> classify (body r) = None)"

text \<open>
  \<open>time.sleep(8)\<close> lies between the clock readings of two successive iterations: the
  later reading is at least 8 above the earlier one.
\<close>

definition sleeps :: "poll_env \<Rightarrow> bool" where
  "sleeps env = (\<forall>k. clock env (Suc k) + 8 \<le> clock env (Suc (Suc k)))"

text \<open>\<open>elapsed\<close> as iteration \<open>k\<close> of the poll loop computes it.\<close>

definition elapsed_at :: "poll_env \<Rightarrow> nat \<Rightarrow> rat" where
  "elapsed_at env k = clock env (Suc k) - clock env 0"

definition waiting_forever :: poll_env where
  "waiting_forever =
     \<lparr>clock = steady_clock,
      reply = (\<lambda>k. if even k then page 200 ''Status=WAITING''
                   else Raises (RequestException ''Read timed out.''))\<rparr>"

text \<open>The export as the specification words it: the header row, then one row per record.\<close>

definition header_line :: string where
  "header_line = ''accession,top_hit,gene,species,bit_score,evalue'' @ [CHR 0x0A]"

definition or_NA :: "string option \<Rightarrow> string" where
  "or_NA v = (case v of None \<Rightarrow> ''NA'' | Some x \<Rightarrow> x)"

definition data_line :: "result_row \<Rightarrow> string" where
  "data_line r =
     or_NA (accession r) @ '','' @ or_NA (top_hit r) @ '','' @ or_NA (gene r) @ '','' @
     or_NA (species r) @ '','' @ or_NA (bit_score r) @ '','' @ or_NA (evalue r) @ [CHR 0x0A]"

text \<open>The body of a CSV response: the chunks it streams.\<close>

definition csv_chunks :: "flask_response \<Rightarrow> string list" where
  "csv_chunks resp = (case resp of Csv chunks hs \<Rightarrow> chunks | _ \<Rightarrow> [])"

definition no_hits_poll :: poll_env where
  "no_hits_poll = \<lparr>clock = steady_clock, reply = (\<lambda>k. page 200 (''Status=READY'' @ [CHR 0x0A] @ ''ThereAreHits=no''))\<rparr>"

definition env_no_hits :: acc_env where
  "env_no_hits = env_failed_on_third\<lparr>poll := no_hits_poll\<rparr>"

text \<open>\<open>s.split(sep)\<close> for a separator of one character.\<close>

fun split_on :: "char \<Rightarrow> string \<Rightarrow> string list" where
  "split_on sep [] = [[]]"
| "split_on sep (c # cs) =
     (if c = sep then [] # split_on sep cs
      else (case split_on sep cs of [] \<Rightarrow> [[c]] | f # fs \<Rightarrow> (c # f) # fs))"

text \<open>The message of the exception that \<open>requests\<close> raises when a read times out.\<close>

definition read_timeout :: string where
  "read_timeout = ''HTTPSConnectionPool(host='www.ncbi.nlm.nih.gov', port=443): Read timed out. (read timeout=10)''"

definition env_fetch_fails :: acc_env where
  "env_fetch_fails = env_failed_on_third\<lparr>fasta_http := Raises (RequestException read_timeout)\<rparr>"

text \<open>
  The words of the specification for the parser: \<open>e\<close> is the first element of a list
  with tag \<open>t\<close>; \<open>g\<close> is a bracketed substring of \<open>d\<close> that starts after the prefix
  \<open>pre\<close> (an opening bracket, a nonempty text without closing bracket, a closing
  bracket); \<open>g\<close> is the first bracketed substring of \<open>d\<close>.
\<close>

definition first_with_tag :: "string \<Rightarrow> element list \<Rightarrow> element \<Rightarrow> bool" where
  "first_with_tag t es e \<longleftrightarrow>
     (\<exists>before after. es = before @ e # after \<and> tag e = t \<and> (\<forall>b\<in>set before. tag b \<noteq> t))"

definition bracketed :: "string \<Rightarrow> string \<Rightarrow> string \<Rightarrow> bool" where
  "bracketed d pre g \<longleftrightarrow>
     g \<noteq> [] \<and> CHR '']'' \<notin> set g \<and> (\<exists>post. d = pre @ ''['' @ g @ '']'' @ post)"

definition first_bracketed :: "string \<Rightarrow> string \<Rightarrow> bool" where
  "first_bracketed d g \<longleftrightarrow>
     (\<exists>pre. bracketed d pre g \<and> (\<forall>pre' g'. bracketed d pre' g' \<longrightarrow> length pre \<le> length pre'))"

text \<open>The text of an element, empty when it has none.\<close>

definition elem_text_of :: "element \<Rightarrow> string" where
  "elem_text_of c = (case elem_text c of None \<Rightarrow> [] | Some x \<Rightarrow> x)"

text \<open>A result document with one hit, and one with none.\<close>

definition hsp_example :: element where
  "hsp_example = Element ''Hsp'' None
     [Element ''Hsp_num'' (Some ''1'') [], Element ''Hsp_bit-score'' (Some ''211.46'') [],
      Element ''Hsp_evalue'' (Some ''3e-70'') []]"

definition hit_example :: element where
  "hit_example = Element ''Hit'' None
     [Element ''Hit_def'' (Some ''some protein [Danio rerio]'') [],
      Element ''Hit_accession'' (Some ''NP_571131'') [],
      Element ''Hit_hsps'' None [hsp_example]]"

definition doc_hit :: element where
  "doc_hit = Element ''BlastOutput'' None
     [Element ''BlastOutput_program'' (Some ''blastp'') [],
      Element ''Iteration_hits'' None [hit_example]]"

definition doc_no_hits :: element where
  "doc_no_hits = Element ''BlastOutput'' None
     [Element ''BlastOutput_program'' (Some ''blastp'') [],
      Element ''Iteration_hits'' None []]"

definition parse_example :: "string \<Rightarrow> exn + element" where
  "parse_example t =
     (if t = ''hit'' then Inr doc_hit
      else if t = ''no hits'' then Inr doc_no_hits
      else Inl (ParseError ''syntax error: line 1, column 0''))"

text \<open>What the store records for a job: its status and its progress.\<close>

definition job_status :: "store \<Rightarrow> string \<Rightarrow> string option" where
  "job_status s jid = map_option status (jobs s jid)"

definition job_progress :: "store \<Rightarrow> string \<Rightarrow> int option" where
  "job_progress s jid = map_option progress (jobs s jid)"

text \<open>The row that the runner builds for an accession whose processing raised \<open>e\<close>.\<close>

definition error_row :: "string \<Rightarrow> string \<Rightarrow> exn \<Rightarrow> result_row" where
  "error_row jid acc e =
     \<lparr>job_id = Some jid, accession = Some acc, top_hit = Some ''ERROR'', gene = Some ''ERROR'',
      species = Some (str_exn e), bit_score = Some ''NA'', evalue = Some ''NA''\<rparr>"

text \<open>
  A job of three accessions: the sequence service rejects the second one, the searches
  for the other two end with no hits.
\<close>

definition env_bad_accession :: acc_env where
  "env_bad_accession = env_failed_on_third\<lparr>fasta_http := page 400 ''Failed to retrieve sequence: BAD1''\<rparr>"

definition second_is_bad :: "nat \<Rightarrow> acc_env" where
  "second_is_bad i = (if i = 1 then env_bad_accession else env_no_hits)"

definition three_accessions :: "string list" where
  "three_accessions = [''P01308'', ''BAD1'', ''P69905'']"

section \<open>Poll budget zero\<close>

lemma fetch_fasta_ok_fasta:
  "fetch_fasta ''P01308'' ok_fasta = Inr (''>P01308 insulin'' @ [CHR 0x0A] @ ''MALWMRLLPL'')"
  by code_simp

lemma submit_blast_ok_submit: "submit_blast f t ok_submit = Inr ''ABC123''"
  by (simp add: submit_blast_def ok_submit_def page_def raise_for_status_def search_rid_def
      match_here_def isspace_def)

text \<open>
  Called with the budget 0 that its docstring names, \<open>wait_for_blast\<close> returns \<open>FAILED\<close>
  at the third check.
\<close>

lemma wait_for_blast_zero_failed_on_third:
  "wait_for_blast_attempts (Some 0) failed_on_third = Some (Inr (''FAILED'', 3))"
  by (simp add: wait_for_blast_attempts_def wait_loop.simps failed_on_third_def page_def
      classify_def)

text \<open>
  \<open>run_blast_job\<close> turns the budget 0 into \<open>None\<close>, and the first test of the poll loop
  raises \<open>TypeError\<close>, whatever the status service would answer.
\<close>

lemma wait_for_blast_None: "wait_for_blast None env = Some (Inl (TypeError none_gt_int))"
  by (simp add: wait_for_blast_def wait_for_blast_attempts_def wait_loop.simps)

lemma process_accession_timeout_zero:
  assumes "fetch_fasta acc (fasta_http env) = Inr fasta"
    and "submit_blast fasta taxid (submit_http env) = Inr rid"
  shows "process_accession env acc taxid 0 = Some (''ERROR'', ''ERROR'', none_gt_int, ''NA'', ''NA'')"
  using assms by (simp add: process_accession_def try_body_def wait_for_blast_None)

text \<open>
  C1. With poll budget 0 and a status service that answers \<open>FAILED\<close> on the third check,
  the job stores for the accession the row \<open>ERROR, ERROR, <text of the TypeError>, NA, NA\<close>,
  not the row of five \<open>NA\<close>.
\<close>

theorem timeout_zero_records_error:
  "map_option (\<lambda>s. select_results s ''job1'')
     (final_store empty_store
        (run_blast_job (all_commit (\<lambda>i. env_failed_on_third)) ''job1'' [''P01308''] ''9606'' 0
           (insert_job ''job1'' 1 ''human'' empty_store)))
   = Some [\<lparr>job_id = Some ''job1'', accession = Some ''P01308'', top_hit = Some ''ERROR'',
             gene = Some ''ERROR'', species = Some none_gt_int, bit_score = Some ''NA'',
             evalue = Some ''NA''\<rparr>]"
  by code_simp

section \<open>Gene symbol lookup\<close>

text \<open>
  C7. \<open>fetch_gene_symbol\<close> never raises: for every outcome of its request the result is a
  returned string. When the request raises, when the response has an error status, and
  when the response holds no gene symbol, that string is \<open>NA\<close>.
\<close>

theorem fetch_gene_symbol_never_raises:
  "(\<exists>g. fetch_gene_symbol h = Inr g)
   \<and> fetch_gene_symbol (Raises e) = Inr ''NA''
   \<and> (raise_for_status r = Inl e \<longrightarrow> fetch_gene_symbol (Returns r) = Inr ''NA'')
   \<and> (search_gene (body r') = None \<longrightarrow> fetch_gene_symbol (Returns r') = Inr ''NA'')"
  by (auto simp: fetch_gene_symbol_def gene_lookup_def split: http.splits sum.splits option.splits)

theorem fetch_gene_symbol_never_raises_witness:
  "raise_for_status server_error = Inl (HTTPError ''500 Server Error'')
   \<and> fetch_gene_symbol (Returns server_error) = Inr ''NA''
   \<and> search_gene (body no_gene) = None
   \<and> fetch_gene_symbol (Returns no_gene) = Inr ''NA''"
  using fetch_gene_symbol_never_raises
    [where r = server_error and e = "HTTPError ''500 Server Error''" and r' = no_gene]
  by (simp add: server_error_def no_gene_def raise_for_status_def search_gene_def match_here_def)

section \<open>Poll loop with a positive budget\<close>

lemma wait_loop_continue:
  assumes "never_terminal env" and "\<not> (0 < B \<and> of_int B < clock env (Suc a) - st)"
  shows "wait_loop (Some B) env st a = wait_loop (Some B) env st (Suc a)"
proof -
  from assms(1) have "case reply env a of Raises e \<Rightarrow> True | Returns r \<Rightarrow> classify (body r) = None"
    by (simp add: never_terminal_def)
  with assms(2) show ?thesis
    by (subst wait_loop.simps) (auto split: http.splits)
qed

lemma wait_loop_stop:
  assumes "0 < B" and "of_int B < clock env (Suc a) - st"
  shows "wait_loop (Some B) env st a = Some (Inr (''TIMEOUT'', a))"
  using assms by (subst wait_loop.simps) simp

lemma wait_loop_timeout_at:
  assumes "0 < B" and "never_terminal env"
    and "\<forall>k. a \<le> k \<and> k < a + d \<longrightarrow> clock env (Suc k) - st \<le> of_int B"
    and "of_int B < clock env (Suc (a + d)) - st"
  shows "wait_loop (Some B) env st a = Some (Inr (''TIMEOUT'', a + d))"
  using assms(3,4)
proof (induction d arbitrary: a)
  case 0
  then show ?case using assms(1) by (simp add: wait_loop_stop)
next
  case (Suc d)
  have "clock env (Suc a) - st \<le> of_int B" using Suc.prems(1) by simp
  then have "wait_loop (Some B) env st a = wait_loop (Some B) env st (Suc a)"
    using assms(2) by (intro wait_loop_continue) auto
  also have "\<dots> = Some (Inr (''TIMEOUT'', Suc a + d))"
    using Suc.prems by (intro Suc.IH) auto
  finally show ?case by simp
qed

lemma clock_grows:
  assumes "sleeps env"
  shows "clock env 1 + 8 * of_nat k \<le> clock env (Suc k)"
proof (induction k)
  case 0
  then show ?case by simp
next
  case (Suc k)
  have "clock env (Suc k) + 8 \<le> clock env (Suc (Suc k))"
    using assms by (simp add: sleeps_def)
  with Suc show ?case by simp
qed

lemma budget_exceeded:
  assumes "sleeps env"
  shows "\<exists>n. of_int B < elapsed_at env n"
proof -
  obtain k :: nat where k: "of_int B - (clock env 1 - clock env 0) < of_nat k"
    using reals_Archimedean2 by blast
  have "of_nat k \<le> (8::rat) * of_nat k" by simp
  with k clock_grows [OF assms, of k] have "of_int B < elapsed_at env k"
    by (simp add: elapsed_at_def)
  then show ?thesis ..
qed

text \<open>
  C5. For a positive budget \<open>B\<close> and a status service that never reaches a terminal
  state, with request errors swallowed, \<open>wait_for_blast\<close> returns, its result is
  \<open>TIMEOUT\<close>, the elapsed time it read when it returned is above \<open>B\<close>, and at every
  earlier reading the elapsed time was at most \<open>B\<close>.
\<close>

theorem wait_for_blast_times_out:
  assumes "0 < B" and "never_terminal env" and "sleeps env"
  shows "\<exists>n. wait_for_blast_attempts (Some B) env = Some (Inr (''TIMEOUT'', n))
           \<and> wait_for_blast (Some B) env = Some (Inr ''TIMEOUT'')
           \<and> of_int B < elapsed_at env n
           \<and> (\<forall>k<n. elapsed_at env k \<le> of_int B)"
proof -
  define n where "n = (LEAST n. of_int B < elapsed_at env n)"
  have ex: "\<exists>n. of_int B < elapsed_at env n" using assms(3) by (rule budget_exceeded)
  then have over: "of_int B < elapsed_at env n" unfolding n_def by (rule LeastI_ex)
  have under: "elapsed_at env k \<le> of_int B" if "k < n" for k
    using not_less_Least [of k "\<lambda>n. of_int B < elapsed_at env n"] that
    by (simp add: n_def not_less)
  have "wait_loop (Some B) env (clock env 0) 0 = Some (Inr (''TIMEOUT'', 0 + n))"
    using assms(1,2) over under by (intro wait_loop_timeout_at) (auto simp: elapsed_at_def)
  then have "wait_for_blast_attempts (Some B) env = Some (Inr (''TIMEOUT'', n))"
    by (simp add: wait_for_blast_attempts_def)
  with over under show ?thesis by (auto simp: wait_for_blast_def)
qed

lemma never_terminal_waiting_forever: "never_terminal waiting_forever"
  by (simp add: never_terminal_def waiting_forever_def page_def classify_def)

lemma sleeps_waiting_forever: "sleeps waiting_forever"
  by (simp add: sleeps_def waiting_forever_def steady_clock_def)

theorem wait_for_blast_times_out_witness:
  "(0::int) < 5 \<and> never_terminal waiting_forever \<and> sleeps waiting_forever
   \<and> wait_for_blast (Some 5) waiting_forever = Some (Inr ''TIMEOUT'')"
  using wait_for_blast_times_out [of 5 waiting_forever]
    never_terminal_waiting_forever sleeps_waiting_forever
  by auto

text \<open>Whatever the status service answers, \<open>TIMEOUT\<close> is returned only above the budget.\<close>

lemma timeout_only_after_budget_aux:
  "wait_loop mw env st a = Some res \<Longrightarrow>
   mw = Some B \<longrightarrow> res = Inr (''TIMEOUT'', n) \<longrightarrow> 0 < B \<and> of_int B < clock env (Suc n) - st"
proof (induction mw env st a res rule: wait_loop.raw_induct [rotated 1, consumes 1, case_names step])
  case (step wl mw env st a res)
  show ?case
  proof (intro impI)
    assume mw: "mw = Some B" and res: "res = Inr (''TIMEOUT'', n)"
    show "0 < B \<and> of_int B < clock env (Suc n) - st"
    proof (cases "0 < B \<and> of_int B < clock env (Suc a) - st")
      case True
      with step.hyps mw res show ?thesis by (auto simp: Let_def)
    next
      case False
      with step.hyps mw res have wl: "wl (Some B) env st (Suc a) = Some res"
        by (auto simp: Let_def classify_def split: http.splits option.splits if_splits)
      with step.IH [of "Some B" env st "Suc a" res] res show ?thesis by simp
    qed
  qed
qed

lemma timeout_only_after_budget:
  assumes "wait_for_blast_attempts (Some B) env = Some (Inr (''TIMEOUT'', n))"
  shows "of_int B < elapsed_at env n"
  using timeout_only_after_budget_aux [of "Some B" env "clock env 0" 0 _ B n] assms
  by (simp add: wait_for_blast_attempts_def elapsed_at_def)

section \<open>Read endpoints and CSV export\<close>

lemma generate_lines: "generate rows = header_line # map data_line rows"
  by (simp add: generate_def headers_def header_line_def data_line_def csv_values_def or_NA_def)

lemma process_accession_no_hits:
  assumes "fetch_fasta acc (fasta_http env) = Inr fasta"
    and "submit_blast fasta taxid (submit_http env) = Inr rid"
    and "wait_for_blast (if timeout = 0 then None else Some timeout) (poll env) = Some (Inr ''NO_HITS'')"
  shows "process_accession env acc taxid timeout = Some (''No hit'', ''No hit'', ''No hit'', ''No hit'', ''No hit'')"
  using assms by (simp add: process_accession_def try_body_def)

lemma select_results_update_job [simp]: "select_results (update_job jid f s) j = select_results s j"
  by (simp add: select_results_def update_job_def split: option.splits)

lemma select_results_insert_result:
  "select_results (insert_result jid acc (th, g, sp, bs, ev) s) j =
     select_results s j @ (if j = jid then [\<lparr>job_id = Some jid, accession = Some acc, top_hit = Some th, gene = Some g,
             species = Some sp, bit_score = Some bs, evalue = Some ev\<rparr>] else [])"
  by (simp add: select_results_def insert_result_def)

lemma percent_Inr: "ntotal \<noteq> 0 \<Longrightarrow> \<exists>p. percent i ntotal = Inr p"
  by (simp add: percent_def)

lemma select_results_save_result:
  assumes "ntotal \<noteq> 0"
  shows "select_results (save_result True jid acc (th, g, sp, bs, ev) i ntotal s) jid =
     select_results s jid @ [\<lparr>job_id = Some jid, accession = Some acc, top_hit = Some th, gene = Some g,
             species = Some sp, bit_score = Some bs, evalue = Some ev\<rparr>]"
  using percent_Inr [OF assms, of i]
  by (auto simp: save_result_def update_progress_def select_results_insert_result)

text \<open>
  C8. The CSV export streams the header row \<open>accession,top_hit,gene,species,bit_score,evalue\<close>
  and then exactly one row per stored record of the job, a null field rendered as \<open>NA\<close>.
  When the poll of an accession ends with \<open>NO_HITS\<close> and its row is the only one of the
  job, the data row is the accession followed by five times \<open>No hit\<close>.
\<close>

theorem csv_export:
  "csv_chunks (download_csv sess s jid) = header_line # map data_line (select_results s jid)
   \<and> length (csv_chunks (download_csv sess s jid)) = 1 + length (select_results s jid)
   \<and> (fetch_fasta acc (fasta_http env) = Inr fasta
        \<and> submit_blast fasta taxid (submit_http env) = Inr rid
        \<and> wait_for_blast (if timeout = 0 then None else Some timeout) (poll env) = Some (Inr ''NO_HITS'')
        \<and> select_results s jid = [] \<and> ntotal \<noteq> 0
      \<longrightarrow> (\<exists>f. process_accession env acc taxid timeout = Some f
            \<and> csv_chunks (download_csv sess (save_result True jid acc f i ntotal s) jid)
                = [header_line, acc @ '',No hit,No hit,No hit,No hit,No hit'' @ [CHR 0x0A]]))"
  by (auto simp: download_csv_def csv_chunks_def generate_lines process_accession_no_hits
      select_results_save_result data_line_def or_NA_def)

lemma wait_no_hits: "wait_for_blast (Some 900) no_hits_poll = Some (Inr ''NO_HITS'')"
  by (simp add: wait_for_blast_def wait_for_blast_attempts_def wait_loop.simps no_hits_poll_def
       steady_clock_def page_def classify_def)

theorem csv_export_witness:
  "fetch_fasta ''P01308'' (fasta_http env_no_hits) = Inr (''>P01308 insulin'' @ [CHR 0x0A] @ ''MALWMRLLPL'')
   \<and> submit_blast (''>P01308 insulin'' @ [CHR 0x0A] @ ''MALWMRLLPL'') ''9606'' (submit_http env_no_hits) = Inr ''ABC123''
   \<and> wait_for_blast (if (900::int) = 0 then None else Some 900) (poll env_no_hits) = Some (Inr ''NO_HITS'')
   \<and> select_results empty_store ''job1'' = [] \<and> (1::nat) \<noteq> 0
   \<and> (\<exists>f. process_accession env_no_hits ''P01308'' ''9606'' 900 = Some f
        \<and> csv_chunks (download_csv Map.empty (save_result True ''job1'' ''P01308'' f 0 1 empty_store) ''job1'')
             = [header_line, ''P01308,No hit,No hit,No hit,No hit,No hit'' @ [CHR 0x0A]])"
  using csv_export [of Map.empty empty_store "''job1''" "''P01308''" env_no_hits
      "''>P01308 insulin'' @ [CHR 0x0A] @ ''MALWMRLLPL''" "''9606''" "''ABC123''" 900 1 0]
    fetch_fasta_ok_fasta submit_blast_ok_submit wait_no_hits
  by (simp add: env_no_hits_def env_failed_on_third_def empty_store_def select_results_def)

text \<open>
  C9. The status, results and CSV endpoints answer the same for any two sessions; with
  an empty session (nobody logged in) they return the status and progress of an existing
  job and its result rows.
\<close>

theorem read_endpoints_ignore_session:
  "status_route sess s jid = status_route sess' s jid
   \<and> results_route sess s jid = results_route sess' s jid
   \<and> download_csv sess s jid = download_csv sess' s jid
   \<and> (jobs s jid = Some j \<longrightarrow>
        status_route Map.empty s jid = Json [(''progress'', JInt (progress j)), (''status'', JStr (status j))] 200)
   \<and> results_route Map.empty s jid = Template ''results.html'' (select_results s jid) jid
   \<and> csv_chunks (download_csv Map.empty s jid) = generate (select_results s jid)"
  by (simp add: status_route_def results_route_def download_csv_def csv_chunks_def)

theorem read_endpoints_ignore_session_witness:
  "jobs (insert_job ''job1'' 1 ''human'' empty_store) ''job1''
      = Some \<lparr>user_id = Some 1, organism = Some ''human'', progress = 0, status = ''RUNNING''\<rparr>
   \<and> status_route Map.empty (insert_job ''job1'' 1 ''human'' empty_store) ''job1''
      = Json [(''progress'', JInt 0), (''status'', JStr ''RUNNING'')] 200"
  using read_endpoints_ignore_session [of _ "insert_job ''job1'' 1 ''human'' empty_store" "''job1''" _
      "\<lparr>user_id = Some 1, organism = Some ''human'', progress = 0, status = ''RUNNING''\<rparr>"]
  by (simp add: insert_job_def)

text \<open>By contrast, job deletion consults the session.\<close>

lemma delete_job_needs_admin: "delete_job Map.empty s jid = (PlainText ''Unauthorized'' 403, s)"
  by (simp add: delete_job_def)

lemma length_split_on: "length (split_on sep s) = 1 + count_list s sep"
  by (induction s) (auto split: list.splits)

lemma count_list_append: "count_list (xs @ ys) a = count_list xs a + count_list ys a"
  by (induction xs) auto

lemma count_join:
  "xs \<noteq> [] \<Longrightarrow> count_list (join [c] xs) c = (length xs - 1) + count_list (concat xs) c"
  by (induction "[c]" xs rule: join.induct) (auto simp: count_list_append)

lemma length_csv_values: "length (csv_values r) = 6"
  by (simp add: csv_values_def headers_def)

lemma csv_fields_count:
  "length (split_on CHR '','' (join '','' (csv_values r))) = 6 + count_list (concat (csv_values r)) CHR '',''"
proof -
  have "csv_values r \<noteq> []" using length_csv_values [of r] by auto
  then show ?thesis using count_join [of "csv_values r" "CHR '',''"] length_csv_values [of r]
    by (simp add: length_split_on)
qed

text \<open>
  C10. The export joins the values with commas and quotes nothing: a data row has six
  fields plus one for every comma inside its values. When \<open>fetch_fasta\<close> raises with a
  message that contains a comma, the stored species is that message and the exported row
  splits into seven fields under the header's six.
\<close>

theorem csv_comma_breaks_columns:
  "length (split_on CHR '','' (join '','' (csv_values r))) = 6 + count_list (concat (csv_values r)) CHR '',''
   \<and> map_option (\<lambda>s. map (\<lambda>line. length (split_on CHR '','' line)) (csv_chunks (download_csv Map.empty s ''job1'')))
       (final_store empty_store
        (run_blast_job (all_commit (\<lambda>i. env_fetch_fails)) ''job1'' [''P01308''] ''9606'' 900
           (insert_job ''job1'' 1 ''human'' empty_store)))
     = Some [6, 7]
   \<and> map_option (\<lambda>s. map species (select_results s ''job1''))
       (final_store empty_store
        (run_blast_job (all_commit (\<lambda>i. env_fetch_fails)) ''job1'' [''P01308''] ''9606'' 900
           (insert_job ''job1'' 1 ''human'' empty_store)))
     = Some [Some read_timeout]"
proof (intro conjI)
  show "length (split_on CHR '','' (join '','' (csv_values r))) = 6 + count_list (concat (csv_values r)) CHR '',''"
    by (rule csv_fields_count)
  show "map_option (\<lambda>s. map (\<lambda>line. length (split_on CHR '','' line)) (csv_chunks (download_csv Map.empty s ''job1'')))
       (final_store empty_store
        (run_blast_job (all_commit (\<lambda>i. env_fetch_fails)) ''job1'' [''P01308''] ''9606'' 900
           (insert_job ''job1'' 1 ''human'' empty_store)))
     = Some [6, 7]"
    by code_simp
  show "map_option (\<lambda>s. map species (select_results s ''job1''))
       (final_store empty_store
        (run_blast_job (all_commit (\<lambda>i. env_fetch_fails)) ''job1'' [''P01308''] ''9606'' 900
           (insert_job ''job1'' 1 ''human'' empty_store)))
     = Some [Some read_timeout]"
    by code_simp
qed

section \<open>Result parser\<close>

lemma find_first_with_tag:
  "List.find (\<lambda>d. tag d = t) es = Some e \<longleftrightarrow> first_with_tag t es e"
proof (induction es)
  case Nil
  then show ?case by (simp add: first_with_tag_def)
next
  case (Cons x xs)
  show ?case
  proof (cases "tag x = t")
    case True
    have "first_with_tag t (x # xs) e \<longleftrightarrow> e = x"
    proof
      assume "first_with_tag t (x # xs) e"
      then obtain before after where d: "x # xs = before @ e # after" "\<forall>b\<in>set before. tag b \<noteq> t"
        by (auto simp: first_with_tag_def)
      with True show "e = x" by (cases before) auto
    next
      assume "e = x"
      with True have "x # xs = [] @ e # xs \<and> tag e = t \<and> (\<forall>b\<in>set []. tag b \<noteq> t)" by simp
      then show "first_with_tag t (x # xs) e" unfolding first_with_tag_def by blast
    qed
    with True show ?thesis by auto
  next
    case False
    have "first_with_tag t (x # xs) e \<longleftrightarrow> first_with_tag t xs e"
    proof
      assume "first_with_tag t (x # xs) e"
      then obtain before after where d: "x # xs = before @ e # after" "tag e = t" "\<forall>b\<in>set before. tag b \<noteq> t"
        by (auto simp: first_with_tag_def)
      with False obtain b' where "before = x # b'" by (cases before) auto
      with d have "xs = b' @ e # after \<and> tag e = t \<and> (\<forall>b\<in>set b'. tag b \<noteq> t)" by simp
      then show "first_with_tag t xs e" unfolding first_with_tag_def by blast
    next
      assume "first_with_tag t xs e"
      then obtain before after where d: "xs = before @ e # after" "tag e = t" "\<forall>b\<in>set before. tag b \<noteq> t"
        by (auto simp: first_with_tag_def)
      with False have "x # xs = (x # before) @ e # after \<and> tag e = t \<and> (\<forall>b\<in>set (x # before). tag b \<noteq> t)"
        by simp
      then show "first_with_tag t (x # xs) e" unfolding first_with_tag_def by blast
    qed
    with False Cons show ?thesis by simp
  qed
qed

lemma find_none_with_tag:
  "List.find (\<lambda>d. tag d = t) es = None \<longleftrightarrow> (\<forall>d\<in>set es. tag d \<noteq> t)"
  by (auto simp: find_None_iff)

lemma first_with_tag_or_none:
  "(\<forall>d\<in>set es. tag d \<noteq> t) \<or> (\<exists>e. first_with_tag t es e)"
  using find_first_with_tag [of t es] find_none_with_tag [of t es]
  by (cases "List.find (\<lambda>d. tag d = t) es") auto

lemma findtext_present:
  "first_with_tag t (children e) c \<Longrightarrow> findtext t dflt e = elem_text_of c"
  using find_first_with_tag [of t "children e" c]
  by (simp add: findtext_def elem_text_of_def)

lemma findtext_absent:
  "\<forall>c\<in>set (children e). tag c \<noteq> t \<Longrightarrow> findtext t dflt e = dflt"
  using find_none_with_tag [of t "children e"] by (simp add: findtext_def)

lemma takeWhile_upto:
  "c \<notin> set g \<Longrightarrow> takeWhile (\<lambda>x. x \<noteq> c) (g @ c # post) = g"
  by (induction g) auto

lemma dropWhile_upto:
  "c \<notin> set g \<Longrightarrow> dropWhile (\<lambda>x. x \<noteq> c) (g @ c # post) = c # post"
  by (induction g) auto

lemma match_here_bracket:
  "match_here ''['' (\<lambda>c. c \<noteq> CHR '']'') (Some (CHR '']'')) d = Some g \<longleftrightarrow> bracketed d [] g"
proof
  assume m: "match_here ''['' (\<lambda>c. c \<noteq> CHR '']'') (Some (CHR '']'')) d = Some g"
  then obtain rest where d: "d = CHR ''['' # rest"
    by (cases d) (auto simp: match_here_def split: if_splits)
  from m d have g: "g = takeWhile (\<lambda>c. c \<noteq> CHR '']'') rest" "g \<noteq> []"
    by (auto simp: match_here_def Let_def split: if_splits list.splits)
  from m d obtain post where post: "dropWhile (\<lambda>c. c \<noteq> CHR '']'') rest = CHR '']'' # post"
    by (auto simp: match_here_def Let_def split: if_splits list.splits)
  have "rest = g @ CHR '']'' # post"
    using takeWhile_dropWhile_id [of "\<lambda>c. c \<noteq> CHR '']''" rest] g post by simp
  moreover have "CHR '']'' \<notin> set g" using g(1) set_takeWhileD by fastforce
  ultimately show "bracketed d [] g" using d g(2) by (auto simp: bracketed_def)
next
  assume "bracketed d [] g"
  then obtain post where b: "g \<noteq> []" "CHR '']'' \<notin> set g" "d = CHR ''['' # g @ CHR '']'' # post"
    by (auto simp: bracketed_def)
  show "match_here ''['' (\<lambda>c. c \<noteq> CHR '']'') (Some (CHR '']'')) d = Some g"
    using b by (simp add: match_here_def takeWhile_upto dropWhile_upto)
qed

lemma bracketed_Nil [simp]: "\<not> bracketed [] pre g"
  by (simp add: bracketed_def)

lemma bracketed_Cons_Cons [simp]:
  "bracketed (c # cs) (c' # p) g \<longleftrightarrow> c' = c \<and> bracketed cs p g"
  by (auto simp: bracketed_def)

lemma bracketed_unique: "bracketed d pre g \<Longrightarrow> bracketed d pre g' \<Longrightarrow> g = g'"
proof -
  assume a: "bracketed d pre g" and b: "bracketed d pre g'"
  from a obtain post where 1: "d = pre @ ''['' @ g @ '']'' @ post" and n1: "CHR '']'' \<notin> set g"
    by (auto simp: bracketed_def)
  from b obtain post' where 2: "d = pre @ ''['' @ g' @ '']'' @ post'" and n2: "CHR '']'' \<notin> set g'"
    by (auto simp: bracketed_def)
  from 1 2 have e: "g @ CHR '']'' # post = g' @ CHR '']'' # post'" by simp
  have "takeWhile (\<lambda>c. c \<noteq> CHR '']'') (g @ CHR '']'' # post) = g"
    using n1 by (rule takeWhile_upto)
  moreover have "takeWhile (\<lambda>c. c \<noteq> CHR '']'') (g' @ CHR '']'' # post') = g'"
    using n2 by (rule takeWhile_upto)
  ultimately show ?thesis using e by simp
qed

lemma search_species_None:
  "search_species d = None \<longleftrightarrow> (\<forall>pre g. \<not> bracketed d pre g)"
proof (induction d)
  case Nil
  then show ?case by (simp add: search_species_def match_here_def)
next
  case (Cons c cs)
  let ?m = "match_here ''['' (\<lambda>c. c \<noteq> CHR '']'') (Some (CHR '']'')) (c # cs)"
  show ?case
  proof (cases ?m)
    case None
    then have no: "\<And>g. \<not> bracketed (c # cs) [] g" using match_here_bracket [of "c # cs"] by simp
    have "(\<forall>pre g. \<not> bracketed (c # cs) pre g) \<longleftrightarrow> (\<forall>p g. \<not> bracketed cs p g)"
    proof
      assume h: "\<forall>pre g. \<not> bracketed (c # cs) pre g"
      show "\<forall>p g. \<not> bracketed cs p g"
      proof (intro allI)
        fix p g
        from h have "\<not> bracketed (c # cs) (c # p) g" by blast
        then show "\<not> bracketed cs p g" by simp
      qed
    next
      assume h: "\<forall>p g. \<not> bracketed cs p g"
      show "\<forall>pre g. \<not> bracketed (c # cs) pre g"
      proof (intro allI)
        fix pre g
        show "\<not> bracketed (c # cs) pre g" using no h by (cases pre) auto
      qed
    qed
    with None Cons show ?thesis by (simp add: search_species_def)
  next
    case (Some h)
    then have "bracketed (c # cs) [] h" using match_here_bracket [of "c # cs" h] by simp
    then have "\<not> (\<forall>pre g. \<not> bracketed (c # cs) pre g)" by blast
    with Some show ?thesis by (simp add: search_species_def)
  qed
qed

lemma search_species_Some:
  "search_species d = Some g \<longleftrightarrow> first_bracketed d g"
proof (induction d)
  case Nil
  then show ?case by (simp add: search_species_def match_here_def first_bracketed_def)
next
  case (Cons c cs)
  let ?m = "match_here ''['' (\<lambda>c. c \<noteq> CHR '']'') (Some (CHR '']'')) (c # cs)"
  show ?case
  proof (cases ?m)
    case None
    then have no: "\<And>g. \<not> bracketed (c # cs) [] g" using match_here_bracket [of "c # cs"] by simp
    have "first_bracketed (c # cs) g \<longleftrightarrow> first_bracketed cs g"
    proof
      assume "first_bracketed (c # cs) g"
      then obtain pre where p: "bracketed (c # cs) pre g"
        "\<forall>pre' g'. bracketed (c # cs) pre' g' \<longrightarrow> length pre \<le> length pre'"
        unfolding first_bracketed_def by blast
      from p(1) no obtain q where q: "pre = c # q" "bracketed cs q g"
        by (cases pre) auto
      have "length q \<le> length pre'" if "bracketed cs pre' g'" for pre' g'
      proof -
        from that have "bracketed (c # cs) (c # pre') g'" by simp
        with p(2) have "length pre \<le> length (c # pre')" by blast
        with q(1) show ?thesis by simp
      qed
      with q(2) show "first_bracketed cs g" unfolding first_bracketed_def by blast
    next
      assume "first_bracketed cs g"
      then obtain q where q: "bracketed cs q g"
        "\<forall>pre' g'. bracketed cs pre' g' \<longrightarrow> length q \<le> length pre'"
        unfolding first_bracketed_def by blast
      have 1: "bracketed (c # cs) (c # q) g" using q(1) by simp
      have "length (c # q) \<le> length pre'" if "bracketed (c # cs) pre' g'" for pre' g'
      proof -
        from that no obtain p where p: "pre' = c # p" "bracketed cs p g'"
          by (cases pre') auto
        with q(2) have "length q \<le> length p" by blast
        with p(1) show ?thesis by simp
      qed
      with 1 show "first_bracketed (c # cs) g" unfolding first_bracketed_def by blast
    qed
    with None Cons show ?thesis by (simp add: search_species_def)
  next
    case (Some h)
    then have h: "bracketed (c # cs) [] h" using match_here_bracket [of "c # cs" h] by simp
    have "first_bracketed (c # cs) g \<longleftrightarrow> g = h"
    proof
      assume "first_bracketed (c # cs) g"
      then obtain pre where p: "bracketed (c # cs) pre g"
        "\<forall>pre' g'. bracketed (c # cs) pre' g' \<longrightarrow> length pre \<le> length pre'"
        unfolding first_bracketed_def by blast
      from p(2) h have "length pre \<le> length ([]::string)" by blast
      then have "pre = []" by simp
      with p(1) h show "g = h" by (auto dest: bracketed_unique)
    next
      assume "g = h"
      with h have "bracketed (c # cs) [] g" by simp
      moreover have "\<forall>pre' g'. bracketed (c # cs) pre' g' \<longrightarrow> length ([]::string) \<le> length pre'"
        by simp
      ultimately show "first_bracketed (c # cs) g" unfolding first_bracketed_def by blast
    qed
    with Some show ?thesis by (auto simp: search_species_def)
  qed
qed

lemma first_with_tag_unique:
  "first_with_tag t es e \<Longrightarrow> first_with_tag t es e' \<Longrightarrow> e = e'"
  using find_first_with_tag [of t es e] find_first_with_tag [of t es e'] by simp

text \<open>
  C6. For a payload that parses to the document \<open>doc\<close>: when no element below the root
  has tag \<open>Hit\<close>, the parser returns four times \<open>NA\<close>. Otherwise, with \<open>hit\<close> the first
  such element in document order, the top hit is the text of its \<open>Hit_accession\<close> child,
  the species is the first bracketed substring of the text of its \<open>Hit_def\<close> child and
  \<open>NA\<close> when that text has none (so \<open>some protein [Danio rerio]\<close> gives \<open>Danio rerio\<close>),
  and bit score and e-value are the texts of the \<open>Hsp_bit-score\<close> and \<open>Hsp_evalue\<close>
  children of the first \<open>Hsp\<close> element below the hit, \<open>NA\<close> when there is no \<open>Hsp\<close>.
  \<open>findtext\<close> gives the default (\<open>NA\<close>) when the child is absent and the text of the
  first such child otherwise.
\<close>

theorem parse_top_hit_spec:
  assumes "et_parse xml_text = Inr doc"
  shows "((\<forall>d\<in>set (below doc). tag d \<noteq> ''Hit'') \<longrightarrow>
            parse_top_hit et_parse xml_text = Inr (''NA'', ''NA'', ''NA'', ''NA''))
       \<and> (first_with_tag ''Hit'' (below doc) hit \<longrightarrow>
            (\<exists>th sp bs ev.
               parse_top_hit et_parse xml_text = Inr (th, sp, bs, ev)
             \<and> th = findtext ''Hit_accession'' ''NA'' hit
             \<and> (\<forall>g. first_bracketed (findtext ''Hit_def'' [] hit) g \<longrightarrow> sp = g)
             \<and> ((\<forall>pre g. \<not> bracketed (findtext ''Hit_def'' [] hit) pre g) \<longrightarrow> sp = ''NA'')
             \<and> (findtext ''Hit_def'' [] hit = ''some protein [Danio rerio]'' \<longrightarrow> sp = ''Danio rerio'')
             \<and> (\<forall>hsp. first_with_tag ''Hsp'' (below hit) hsp \<longrightarrow>
                   bs = findtext ''Hsp_bit-score'' ''NA'' hsp \<and> ev = findtext ''Hsp_evalue'' ''NA'' hsp)
             \<and> ((\<forall>d\<in>set (below hit). tag d \<noteq> ''Hsp'') \<longrightarrow> bs = ''NA'' \<and> ev = ''NA'')))
       \<and> ((\<forall>c\<in>set (children e). tag c \<noteq> t) \<longrightarrow> findtext t dflt e = dflt)
       \<and> (first_with_tag t (children e) c \<longrightarrow> findtext t dflt e = elem_text_of c)"
proof (intro conjI impI)
  assume "\<forall>d\<in>set (below doc). tag d \<noteq> ''Hit''"
  then have "find_below ''Hit'' doc = None"
    by (simp add: find_below_def find_none_with_tag)
  with assms show "parse_top_hit et_parse xml_text = Inr (''NA'', ''NA'', ''NA'', ''NA'')"
    by (simp add: parse_top_hit_def parse_root_def)
next
  assume "first_with_tag ''Hit'' (below doc) hit"
  then have hit: "find_below ''Hit'' doc = Some hit"
    by (simp add: find_below_def find_first_with_tag)
  define hit_def where "hit_def = findtext ''Hit_def'' [] hit"
  define sp where "sp = (case search_species hit_def of Some g \<Rightarrow> g | None \<Rightarrow> ''NA'')"
  define bs where "bs = (case find_below ''Hsp'' hit of
      Some hsp \<Rightarrow> findtext ''Hsp_bit-score'' ''NA'' hsp | None \<Rightarrow> ''NA'')"
  define ev where "ev = (case find_below ''Hsp'' hit of
      Some hsp \<Rightarrow> findtext ''Hsp_evalue'' ''NA'' hsp | None \<Rightarrow> ''NA'')"
  have res: "parse_top_hit et_parse xml_text = Inr (findtext ''Hit_accession'' ''NA'' hit, sp, bs, ev)"
    using assms hit
    by (simp add: parse_top_hit_def parse_root_def sp_def bs_def ev_def hit_def_def
        split: option.splits)
  have sp1: "sp = g" if "first_bracketed hit_def g" for g
    using that by (simp add: sp_def search_species_Some [symmetric])
  have sp2: "sp = ''NA''" if "\<forall>pre g. \<not> bracketed hit_def pre g"
    using that search_species_None [of hit_def] by (simp add: sp_def)
  have sp3: "sp = ''Danio rerio''" if "hit_def = ''some protein [Danio rerio]''"
    using that by (simp add: sp_def search_species_def match_here_def)
  have h1: "bs = findtext ''Hsp_bit-score'' ''NA'' hsp \<and> ev = findtext ''Hsp_evalue'' ''NA'' hsp"
    if "first_with_tag ''Hsp'' (below hit) hsp" for hsp
    using that by (simp add: bs_def ev_def find_below_def find_first_with_tag [symmetric])
  have h2: "bs = ''NA'' \<and> ev = ''NA''" if "\<forall>d\<in>set (below hit). tag d \<noteq> ''Hsp''"
    using that find_none_with_tag [of "''Hsp''" "below hit"] by (simp add: bs_def ev_def find_below_def)
  from res sp1 sp2 sp3 h1 h2
  show "\<exists>th sp bs ev.
               parse_top_hit et_parse xml_text = Inr (th, sp, bs, ev)
             \<and> th = findtext ''Hit_accession'' ''NA'' hit
             \<and> (\<forall>g. first_bracketed (findtext ''Hit_def'' [] hit) g \<longrightarrow> sp = g)
             \<and> ((\<forall>pre g. \<not> bracketed (findtext ''Hit_def'' [] hit) pre g) \<longrightarrow> sp = ''NA'')
             \<and> (findtext ''Hit_def'' [] hit = ''some protein [Danio rerio]'' \<longrightarrow> sp = ''Danio rerio'')
             \<and> (\<forall>hsp. first_with_tag ''Hsp'' (below hit) hsp \<longrightarrow>
                   bs = findtext ''Hsp_bit-score'' ''NA'' hsp \<and> ev = findtext ''Hsp_evalue'' ''NA'' hsp)
             \<and> ((\<forall>d\<in>set (below hit). tag d \<noteq> ''Hsp'') \<longrightarrow> bs = ''NA'' \<and> ev = ''NA'')"
    unfolding hit_def_def by blast
next
  assume "\<forall>c\<in>set (children e). tag c \<noteq> t"
  then show "findtext t dflt e = dflt" by (rule findtext_absent)
next
  assume "first_with_tag t (children e) c"
  then show "findtext t dflt e = elem_text_of c" by (rule findtext_present)
qed

lemma first_hit_example: "first_with_tag ''Hit'' (below doc_hit) hit_example"
  by (simp add: find_first_with_tag [symmetric] below_def doc_hit_def hit_example_def hsp_example_def)

lemma first_hsp_example: "first_with_tag ''Hsp'' (below hit_example) hsp_example"
  by (simp add: find_first_with_tag [symmetric] below_def hit_example_def hsp_example_def)

lemma hit_def_example: "findtext ''Hit_def'' [] hit_example = ''some protein [Danio rerio]''"
  by (simp add: findtext_def hit_example_def)

lemma first_bracketed_example: "first_bracketed ''some protein [Danio rerio]'' ''Danio rerio''"
  by (simp add: search_species_Some [symmetric] search_species_def match_here_def)

lemma no_hit_example: "\<forall>d\<in>set (below doc_no_hits). tag d \<noteq> ''Hit''"
  by (simp add: below_def doc_no_hits_def)

theorem parse_top_hit_spec_witness:
  "parse_example ''hit'' = Inr doc_hit
   \<and> first_with_tag ''Hit'' (below doc_hit) hit_example
   \<and> first_bracketed (findtext ''Hit_def'' [] hit_example) ''Danio rerio''
   \<and> first_with_tag ''Hsp'' (below hit_example) hsp_example
   \<and> first_with_tag ''Hsp_evalue'' (children hsp_example) (Element ''Hsp_evalue'' (Some ''3e-70'') [])
   \<and> filter (\<lambda>c. tag c = ''Hsp_score'') (children hsp_example) = []
   \<and> findtext ''Hsp_score'' ''NA'' hsp_example = ''NA''
   \<and> parse_top_hit parse_example ''hit'' = Inr (''NP_571131'', ''Danio rerio'', ''211.46'', ''3e-70'')
   \<and> parse_example ''no hits'' = Inr doc_no_hits
   \<and> filter (\<lambda>d. tag d = ''Hit'') (below doc_no_hits) = []
   \<and> parse_top_hit parse_example ''no hits'' = Inr (''NA'', ''NA'', ''NA'', ''NA'')"
proof -
  have p1: "parse_example ''hit'' = Inr doc_hit" and p2: "parse_example ''no hits'' = Inr doc_no_hits"
    by (simp_all add: parse_example_def)
  have ev: "first_with_tag ''Hsp_evalue'' (children hsp_example) (Element ''Hsp_evalue'' (Some ''3e-70'') [])"
    by (simp add: find_first_with_tag [symmetric] hsp_example_def)
  have sc: "\<forall>c\<in>set (children hsp_example). tag c \<noteq> ''Hsp_score''"
    by (simp add: hsp_example_def)
  note a = parse_top_hit_spec [where et_parse = parse_example and xml_text = "''hit''"
      and doc = doc_hit and hit = hit_example and e = hsp_example and t = "''Hsp_score''"
      and dflt = "''NA''", OF p1]
  note b = parse_top_hit_spec [where et_parse = parse_example and xml_text = "''no hits''"
      and doc = doc_no_hits and e = hsp_example and t = "''Hsp_evalue''" and dflt = "''NA''"
      and c = "Element ''Hsp_evalue'' (Some ''3e-70'') []", OF p2]
  from a [THEN conjunct2, THEN conjunct1, THEN mp, OF first_hit_example]
  obtain th sp bs ev where r: "parse_top_hit parse_example ''hit'' = Inr (th, sp, bs, ev)"
    and th: "th = findtext ''Hit_accession'' ''NA'' hit_example"
    and sp: "\<forall>g. first_bracketed (findtext ''Hit_def'' [] hit_example) g \<longrightarrow> sp = g"
    and hs: "\<forall>hsp. first_with_tag ''Hsp'' (below hit_example) hsp \<longrightarrow>
               bs = findtext ''Hsp_bit-score'' ''NA'' hsp \<and> ev = findtext ''Hsp_evalue'' ''NA'' hsp"
    by blast
  have fb: "first_bracketed (findtext ''Hit_def'' [] hit_example) ''Danio rerio''"
    using first_bracketed_example by (simp add: hit_def_example)
  from sp fb have sp': "sp = ''Danio rerio''" by blast
  from hs first_hsp_example
  have bs: "bs = findtext ''Hsp_bit-score'' ''NA'' hsp_example"
    and ev': "ev = findtext ''Hsp_evalue'' ''NA'' hsp_example" by blast+
  have ev'': "findtext ''Hsp_evalue'' ''NA'' hsp_example = ''3e-70''"
    using b [THEN conjunct2, THEN conjunct2, THEN conjunct2, THEN mp, OF ev]
    by (simp add: elem_text_of_def)
  have hit: "parse_top_hit parse_example ''hit'' = Inr (''NP_571131'', ''Danio rerio'', ''211.46'', ''3e-70'')"
    using r th sp' bs ev' ev'' by (simp add: findtext_def hit_example_def hsp_example_def)
  have score: "findtext ''Hsp_score'' ''NA'' hsp_example = ''NA''"
    using a [THEN conjunct2, THEN conjunct2, THEN conjunct1, THEN mp, OF sc] .
  have nohit: "parse_top_hit parse_example ''no hits'' = Inr (''NA'', ''NA'', ''NA'', ''NA'')"
    using b [THEN conjunct1, THEN mp, OF no_hit_example] .
  show ?thesis
    using p1 p2 first_hit_example fb first_hsp_example ev sc score hit no_hit_example nohit
    by (simp add: filter_empty_conv)
qed

section \<open>Rounding to binary64 and the progress percentage\<close>


lemma round_half_even_of_int [simp]: "round_half_even (of_int n) = n"
  by (simp add: round_half_even_def)



















section \<open>Job runner\<close>

lemma jobs_update_job:
  "jobs (update_job jid f s) j = (if j = jid then map_option f (jobs s jid) else jobs s j)"
  by (simp add: update_job_def split: option.splits)

lemma jobs_insert_result [simp]: "jobs (insert_result jid acc f s) = jobs s"
  by (simp add: insert_result_def split: prod.splits)

lemma job_status_save_result [simp]:
  "job_status (save_result c jid acc f i N s) j = job_status s j"
  by (simp add: save_result_def job_status_def update_progress_def jobs_update_job
      option.map_comp comp_def split: sum.splits)


lemma select_results_generic_insert:
  "select_results (insert_result jid acc f s) jid = select_results s jid @
     [(case f of (th, g, sp, bs, ev) \<Rightarrow>
        \<lparr>job_id = Some jid, accession = Some acc, top_hit = Some th, gene = Some g,
         species = Some sp, bit_score = Some bs, evalue = Some ev\<rparr>)]"
  by (simp add: select_results_def insert_result_def split: prod.splits)

lemma length_select_results_save_result:
  "length (select_results (save_result c jid acc f i N s) jid) =
     length (select_results s jid) + (if c \<and> N \<noteq> 0 then 1 else 0)"
  by (auto simp: save_result_def update_progress_def select_results_generic_insert percent_def)

lemma run_loop_status:
  "run_loop env jid N taxid timeout i xs s = (tr, fin) \<Longrightarrow> st \<in> set tr \<Longrightarrow>
   job_status st j = job_status s j"
proof (induction xs arbitrary: i s tr fin)
  case Nil
  then show ?case by simp
next
  case (Cons a xs)
  then show ?case
    by (auto split: option.splits prod.splits simp: Let_def)
qed

lemma run_loop_length:
  "run_loop env jid N taxid timeout i xs s = (tr, fin) \<Longrightarrow>
   length tr \<le> length xs \<and> (fin \<longleftrightarrow> length tr = length xs)"
proof (induction xs arbitrary: i s tr fin)
  case Nil
  then show ?case by auto
next
  case (Cons a xs)
  then show ?case
    by (fastforce split: option.splits prod.splits simp: Let_def)
qed

lemma run_loop_rows:
  "run_loop env jid N taxid timeout i xs s = (tr, True) \<Longrightarrow>
   (\<forall>k<length xs. db_commit (env (i + k))) \<Longrightarrow> (xs \<noteq> [] \<longrightarrow> N \<noteq> 0) \<Longrightarrow>
   length (select_results (last (s # tr)) jid) = length (select_results s jid) + length xs"
proof (induction xs arbitrary: i s tr)
  case Nil
  then show ?case by simp
next
  case (Cons a xs)
  from Cons.prems(1) obtain f tr' where f: "process_accession (env i) a taxid timeout = Some f"
    and tr': "run_loop env jid N taxid timeout (Suc i) xs
        (save_result (db_commit (env i)) jid a f i N s) = (tr', True)"
    and tr: "tr = save_result (db_commit (env i)) jid a f i N s # tr'"
    by (auto split: option.splits prod.splits simp: Let_def)
  have c: "db_commit (env i)" using Cons.prems(2) by force
  have N: "N \<noteq> 0" using Cons.prems(3) by simp
  have "\<forall>k<length xs. db_commit (env (Suc i + k))" using Cons.prems(2) by force
  with Cons.IH [OF tr'] N
  have "length (select_results (last (save_result (db_commit (env i)) jid a f i N s # tr')) jid) =
       length (select_results (save_result (db_commit (env i)) jid a f i N s) jid) + length xs"
    by simp
  with c N tr show ?case by (simp add: length_select_results_save_result)
qed

lemma run_loop_nth:
  "run_loop env jid N taxid timeout i xs s = (tr, fin) \<Longrightarrow> k < length xs \<Longrightarrow> k \<le> length tr \<Longrightarrow>
    (case process_accession (env (i + k)) (xs ! k) taxid timeout of
       None \<Rightarrow> length tr = k \<and> \<not> fin
     | Some f \<Rightarrow> k < length tr \<and>
         tr ! k = save_result (db_commit (env (i + k))) jid (xs ! k) f (i + k) N ((s # tr) ! k))"
proof (induction xs arbitrary: i s tr fin k)
  case Nil
  then show ?case by simp
next
  case (Cons a xs)
  show ?case
  proof (cases "process_accession (env i) a taxid timeout")
    case None
    with Cons.prems show ?thesis by auto
  next
    case (Some f)
    define s' where "s' = save_result (db_commit (env i)) jid a f i N s"
    obtain tr' fin' where r: "run_loop env jid N taxid timeout (Suc i) xs s' = (tr', fin')"
      by (cases "run_loop env jid N taxid timeout (Suc i) xs s'")
    with Some Cons.prems(1) have tr: "tr = s' # tr'" "fin = fin'"
      by (auto simp: s'_def Let_def)
    show ?thesis
    proof (cases k)
      case 0
      with Some tr show ?thesis by (simp add: s'_def)
    next
      case (Suc k')
      with Cons.prems tr have "k' < length xs" "k' \<le> length tr'" by auto
      from Cons.IH [OF r this] Suc tr show ?thesis
        by (auto split: option.splits)
    qed
  qed
qed

lemma process_accession_failure:
  assumes "fetch_fasta acc (fasta_http env) = Inl e
     \<or> (\<exists>fasta. fetch_fasta acc (fasta_http env) = Inr fasta
          \<and> submit_blast fasta taxid (submit_http env) = Inl e)"
  shows "process_accession env acc taxid timeout = Some (''ERROR'', ''ERROR'', str_exn e, ''NA'', ''NA'')"
  using assms by (auto simp: process_accession_def try_body_def)


text \<open>
  C4. When \<open>fetch_fasta\<close> or \<open>submit_blast\<close> raises \<open>e\<close> for the accession at position
  \<open>k\<close> and the loop reaches that position, iteration \<open>k\<close> ends (the job is not aborted):
  it makes one attempt to store one row, with top hit and gene \<open>ERROR\<close>, species
  \<open>str(e)\<close>, bit score and e-value \<open>NA\<close>; when that transaction commits, exactly this
  row is appended to the rows of the job. The loop then goes on with accession
  \<open>k + 1\<close>, from the store that iteration \<open>k\<close> left, as its own environment decides.
\<close>

theorem failure_recorded_and_loop_continues:
  assumes "run_loop env jid N taxid timeout 0 accs s = (tr, fin)"
    and "k < length accs" and "k \<le> length tr"
    and "fetch_fasta (accs ! k) (fasta_http (env k)) = Inl e
     \<or> (\<exists>fasta. fetch_fasta (accs ! k) (fasta_http (env k)) = Inr fasta
          \<and> submit_blast fasta taxid (submit_http (env k)) = Inl e)"
  shows "k < length tr
   \<and> tr ! k = save_result (db_commit (env k)) jid (accs ! k)
                 (''ERROR'', ''ERROR'', str_exn e, ''NA'', ''NA'') k N ((s # tr) ! k)
   \<and> (db_commit (env k) \<and> N \<noteq> 0 \<longrightarrow>
        select_results (tr ! k) jid = select_results ((s # tr) ! k) jid @ [error_row jid (accs ! k) e])
   \<and> (Suc k < length accs \<longrightarrow>
        (case process_accession (env (Suc k)) (accs ! Suc k) taxid timeout of
           None \<Rightarrow> length tr = Suc k \<and> \<not> fin
         | Some f \<Rightarrow> Suc k < length tr \<and>
             tr ! Suc k = save_result (db_commit (env (Suc k))) jid (accs ! Suc k) f (Suc k) N (tr ! k)))"
proof -
  have p: "process_accession (env k) (accs ! k) taxid timeout
      = Some (''ERROR'', ''ERROR'', str_exn e, ''NA'', ''NA'')"
    using assms(4) by (rule process_accession_failure)
  from run_loop_nth [OF assms(1,2,3)] p
  have 1: "k < length tr"
    and 2: "tr ! k = save_result (db_commit (env k)) jid (accs ! k)
                 (''ERROR'', ''ERROR'', str_exn e, ''NA'', ''NA'') k N ((s # tr) ! k)"
    by simp_all
  have 3: "select_results (tr ! k) jid = select_results ((s # tr) ! k) jid @ [error_row jid (accs ! k) e]"
    if "db_commit (env k) \<and> N \<noteq> 0"
    using that unfolding 2
    by (auto simp: save_result_def update_progress_def select_results_generic_insert percent_def
        error_row_def)
  have 4: "(case process_accession (env (Suc k)) (accs ! Suc k) taxid timeout of
           None \<Rightarrow> length tr = Suc k \<and> \<not> fin
         | Some f \<Rightarrow> Suc k < length tr \<and>
             tr ! Suc k = save_result (db_commit (env (Suc k))) jid (accs ! Suc k) f (Suc k) N (tr ! k))"
    if "Suc k < length accs"
  proof -
    from 1 have "Suc k \<le> length tr" by simp
    from run_loop_nth [OF assms(1) that this] show ?thesis by (auto split: option.splits)
  qed
  from 1 2 3 4 show ?thesis by blast
qed

lemma fetch_bad_accession:
  "fetch_fasta ''BAD1'' (fasta_http (second_is_bad 1)) = Inl (PlainException ''Failed to fetch FASTA for BAD1'')"
  by (simp add: second_is_bad_def env_bad_accession_def env_failed_on_third_def page_def fetch_fasta_def)

lemma run_three_accessions:
  "map (\<lambda>st. map accession (select_results st ''job1'') ) (fst (run_loop second_is_bad ''job1'' 3 ''9606'' 900 0 three_accessions
      (insert_job ''job1'' 1 ''human'' empty_store)))
   = [[Some ''P01308''], [Some ''P01308'', Some ''BAD1''], [Some ''P01308'', Some ''BAD1'', Some ''P69905'']]"
  by code_simp

theorem failure_recorded_and_loop_continues_witness:
  "(1::nat) < length three_accessions
   \<and> 1 \<le> length (fst (run_loop second_is_bad ''job1'' 3 ''9606'' 900 0 three_accessions
             (insert_job ''job1'' 1 ''human'' empty_store)))
   \<and> fetch_fasta (three_accessions ! 1) (fasta_http (second_is_bad 1))
        = Inl (PlainException ''Failed to fetch FASTA for BAD1'')
   \<and> db_commit (second_is_bad 1) \<and> (3::nat) \<noteq> 0
   \<and> Suc 1 < length three_accessions
   \<and> 1 < length (fst (run_loop second_is_bad ''job1'' 3 ''9606'' 900 0 three_accessions
             (insert_job ''job1'' 1 ''human'' empty_store)))
   \<and> Suc 1 < length (fst (run_loop second_is_bad ''job1'' 3 ''9606'' 900 0 three_accessions
             (insert_job ''job1'' 1 ''human'' empty_store)))
   \<and> select_results
        (fst (run_loop second_is_bad ''job1'' 3 ''9606'' 900 0 three_accessions
               (insert_job ''job1'' 1 ''human'' empty_store)) ! 1) ''job1''
      = select_results
        ((insert_job ''job1'' 1 ''human'' empty_store #
          fst (run_loop second_is_bad ''job1'' 3 ''9606'' 900 0 three_accessions
               (insert_job ''job1'' 1 ''human'' empty_store))) ! 1) ''job1''
        @ [error_row ''job1'' (three_accessions ! 1)
             (PlainException ''Failed to fetch FASTA for BAD1'')]"
proof -
  have len: "length (fst (run_loop second_is_bad ''job1'' 3 ''9606'' 900 0 three_accessions
             (insert_job ''job1'' 1 ''human'' empty_store))) = 3"
    using arg_cong [OF run_three_accessions, of length] by simp
  have run: "run_loop second_is_bad ''job1'' 3 ''9606'' 900 0 three_accessions
               (insert_job ''job1'' 1 ''human'' empty_store)
      = (fst (run_loop second_is_bad ''job1'' 3 ''9606'' 900 0 three_accessions
               (insert_job ''job1'' 1 ''human'' empty_store)),
         snd (run_loop second_is_bad ''job1'' 3 ''9606'' 900 0 three_accessions
               (insert_job ''job1'' 1 ''human'' empty_store)))"
    by simp
  have k: "1 < length three_accessions" by (simp add: three_accessions_def)
  have reach: "1 \<le> length (fst (run_loop second_is_bad ''job1'' 3 ''9606'' 900 0 three_accessions
             (insert_job ''job1'' 1 ''human'' empty_store)))"
    using len by simp
  have fail: "fetch_fasta (three_accessions ! 1) (fasta_http (second_is_bad 1))
        = Inl (PlainException ''Failed to fetch FASTA for BAD1'')"
    using fetch_bad_accession by (simp add: three_accessions_def)
  have c: "db_commit (second_is_bad 1) \<and> (3::nat) \<noteq> 0"
    by (simp add: second_is_bad_def env_bad_accession_def env_failed_on_third_def)
  note t = failure_recorded_and_loop_continues [OF run k reach disjI1 [OF fail]]
  note t1 = t [THEN conjunct1]
  note t3 = t [THEN conjunct2, THEN conjunct2, THEN conjunct1, THEN mp, OF c]
  have k2: "Suc 1 < length three_accessions" by (simp add: three_accessions_def)
  have "process_accession (second_is_bad (Suc 1)) (three_accessions ! Suc 1) ''9606'' 900
      = Some (''No hit'', ''No hit'', ''No hit'', ''No hit'', ''No hit'')"
    by code_simp
  with t [THEN conjunct2, THEN conjunct2, THEN conjunct2, THEN mp, OF k2]
  have t4: "Suc 1 < length (fst (run_loop second_is_bad ''job1'' 3 ''9606'' 900 0 three_accessions
             (insert_job ''job1'' 1 ''human'' empty_store)))"
    by simp
  from k reach fail c t1 t3 k2 t4 show ?thesis by blast
qed


lemma job_status_mark_running:
  "job_status (mark_running jid s) jid = (if jobs s jid = None then None else Some ''RUNNING'')"
  by (auto simp: job_status_def mark_running_def jobs_update_job)

lemma job_status_mark_done:
  "job_status (mark_done jid s) jid = (if jobs s jid = None then None else Some ''DONE'')"
  by (auto simp: job_status_def mark_done_def jobs_update_job)



lemma select_results_mark_running [simp]:
  "select_results (mark_running jid s) j = select_results s j"
  by (simp add: mark_running_def)

lemma select_results_mark_done [simp]:
  "select_results (mark_done jid s) j = select_results s j"
  by (simp add: mark_done_def)

lemma run_blast_job_cases:
  assumes "run_blast_job env jid accs taxid timeout s = (tr, fin)"
  obtains (not_started) "\<not> running_commit env" "tr = []" "fin"
  | (hangs) tr0 where "running_commit env"
      "run_loop (at_index env) jid (length accs) taxid timeout 0 accs (mark_running jid s) = (tr0, False)"
      "tr = mark_running jid s # tr0" "\<not> fin"
  | (returns) tr0 where "running_commit env"
      "run_loop (at_index env) jid (length accs) taxid timeout 0 accs (mark_running jid s) = (tr0, True)"
      "tr = mark_running jid s # tr0 @
         [if done_commit env then mark_done jid (last (mark_running jid s # tr0))
          else last (mark_running jid s # tr0)]" "fin"
proof (cases "running_commit env")
  case False
  with assms not_started show ?thesis by (simp add: run_blast_job_def)
next
  case True
  obtain tr0 fin0 where r:
    "run_loop (at_index env) jid (length accs) taxid timeout 0 accs (mark_running jid s) = (tr0, fin0)"
    by (cases "run_loop (at_index env) jid (length accs) taxid timeout 0 accs (mark_running jid s)")
  show ?thesis
  proof (cases fin0)
    case True
    with r assms \<open>running_commit env\<close> returns [of tr0] show ?thesis
      by (simp add: run_blast_job_def Let_def del: last.simps)
  next
    case False
    with r assms \<open>running_commit env\<close> hangs [of tr0] show ?thesis
      by (simp add: run_blast_job_def Let_def)
  qed
qed

text \<open>
  C3. When every transaction of the accessions commits and the job had no rows at its
  start, every state of the store in which the job has status \<open>DONE\<close> holds as many
  rows for it as accessions were submitted; and when all writes succeed and the runner
  returns on an existing job, the job ends with status \<open>DONE\<close> and that number of rows.
\<close>

theorem done_job_has_one_row_per_accession:
  assumes "run_blast_job env jid accs taxid timeout s = (tr, fin)"
    and "\<forall>i<length accs. db_commit (at_index env i)"
    and "select_results s jid = []"
  shows "(\<forall>st\<in>set tr. job_status st jid = Some ''DONE'' \<longrightarrow>
            length (select_results st jid) = length accs)
       \<and> (running_commit env \<and> done_commit env \<and> fin \<and> jobs s jid \<noteq> None \<longrightarrow>
            tr \<noteq> [] \<and> job_status (last tr) jid = Some ''DONE''
            \<and> length (select_results (last tr) jid) = length accs)"
  using assms(1)
proof (cases rule: run_blast_job_cases)
  case not_started
  then show ?thesis by simp
next
  case (hangs tr0)
  have "job_status st jid \<noteq> Some ''DONE''" if "st \<in> set tr" for st
    using that hangs(3) run_loop_status [OF hangs(2), of st jid]
    by (auto simp: job_status_mark_running split: if_splits)
  with hangs(4) show ?thesis by blast
next
  case (returns tr0)
  let ?s1 = "mark_running jid s"
  let ?s2 = "last (?s1 # tr0)"
  have running: "job_status st jid \<noteq> Some ''DONE''" if "st \<in> set (?s1 # tr0)" for st
    using that run_loop_status [OF returns(2), of st jid]
    by (auto simp: job_status_mark_running split: if_splits)
  have "\<forall>k<length accs. db_commit (at_index env (0 + k))" using assms(2) by simp
  moreover have "accs \<noteq> [] \<longrightarrow> length accs \<noteq> 0" by simp
  ultimately have "length (select_results ?s2 jid) = length (select_results ?s1 jid) + length accs"
    by (rule run_loop_rows [OF returns(2)])
  then have rows: "length (select_results ?s2 jid) = length accs"
    using assms(3) by simp
  have s2: "?s2 \<in> set (?s1 # tr0)" by (rule last_in_set) simp
  have a: "length (select_results st jid) = length accs"
    if "st \<in> set tr" "job_status st jid = Some ''DONE''" for st
  proof -
    from that(1) returns(3) consider "st \<in> set (?s1 # tr0)"
      | "st = (if done_commit env then mark_done jid ?s2 else ?s2)"
      by auto
    then show ?thesis
    proof cases
      case 1
      with running that(2) show ?thesis by blast
    next
      case 2
      show ?thesis
      proof (cases "done_commit env")
        case True
        with 2 rows show ?thesis by simp
      next
        case False
        with 2 s2 running that(2) show ?thesis by auto
      qed
    qed
  qed
  have b: "tr \<noteq> [] \<and> job_status (last tr) jid = Some ''DONE''
            \<and> length (select_results (last tr) jid) = length accs"
    if "done_commit env" "jobs s jid \<noteq> None"
  proof -
    have "jobs ?s2 jid \<noteq> None"
      using run_loop_status [OF returns(2), of ?s2 jid] s2 that(2)
      by (auto simp: job_status_def job_status_mark_running mark_running_def jobs_update_job)
    with that(1) returns(3) rows show ?thesis
      by (simp add: job_status_mark_done)
  qed
  from a b show ?thesis by blast
qed

lemma run_three_accessions_job:
  "map (\<lambda>st. (job_status st ''job1'', the (job_progress st ''job1''), length (select_results st ''job1'')))
     (fst (run_blast_job (all_commit second_is_bad) ''job1'' three_accessions ''9606'' 900
        (insert_job ''job1'' 1 ''human'' empty_store)))
   = [(Some ''RUNNING'', 0, 0), (Some ''RUNNING'', 33, 1), (Some ''RUNNING'', 66, 2),
      (Some ''RUNNING'', 100, 3), (Some ''DONE'', 100, 3)]
   \<and> snd (run_blast_job (all_commit second_is_bad) ''job1'' three_accessions ''9606'' 900
        (insert_job ''job1'' 1 ''human'' empty_store))"
  by code_simp


theorem done_job_has_one_row_per_accession_witness:
  "db_commit (at_index (all_commit second_is_bad) 0)
   \<and> db_commit (at_index (all_commit second_is_bad) 1)
   \<and> db_commit (at_index (all_commit second_is_bad) 2)
   \<and> length three_accessions = 3
   \<and> select_results (insert_job ''job1'' 1 ''human'' empty_store) ''job1'' = []
   \<and> running_commit (all_commit second_is_bad) \<and> done_commit (all_commit second_is_bad)
   \<and> snd (run_blast_job (all_commit second_is_bad) ''job1'' three_accessions ''9606'' 900
        (insert_job ''job1'' 1 ''human'' empty_store))
   \<and> jobs (insert_job ''job1'' 1 ''human'' empty_store) ''job1'' \<noteq> None
   \<and> job_status (last (fst (run_blast_job (all_commit second_is_bad) ''job1'' three_accessions
        ''9606'' 900 (insert_job ''job1'' 1 ''human'' empty_store)))) ''job1'' = Some ''DONE''
   \<and> length (select_results (last (fst (run_blast_job (all_commit second_is_bad) ''job1''
        three_accessions ''9606'' 900 (insert_job ''job1'' 1 ''human'' empty_store)))) ''job1'')
      = length three_accessions"
proof -
  let ?r = "run_blast_job (all_commit second_is_bad) ''job1'' three_accessions ''9606'' 900
        (insert_job ''job1'' 1 ''human'' empty_store)"
  have run: "?r = (fst ?r, snd ?r)" by simp
  have c: "db_commit (second_is_bad i)" for i
    by (simp add: second_is_bad_def env_bad_accession_def env_no_hits_def env_failed_on_third_def)
  then have all: "\<forall>i<length three_accessions. db_commit (at_index (all_commit second_is_bad) i)"
    by (simp add: all_commit_def)
  have fresh: "select_results (insert_job ''job1'' 1 ''human'' empty_store) ''job1'' = []"
    by (simp add: select_results_def insert_job_def empty_store_def)
  have ex: "jobs (insert_job ''job1'' 1 ''human'' empty_store) ''job1'' \<noteq> None"
    by (simp add: insert_job_def)
  have fin: "snd ?r" using run_three_accessions_job by simp
  have rc: "running_commit (all_commit second_is_bad) \<and> done_commit (all_commit second_is_bad)"
    by (simp add: all_commit_def)
  note t = done_job_has_one_row_per_accession [OF run all fresh, THEN conjunct2, THEN mp]
  from t rc fin ex
  have "job_status (last (fst ?r)) ''job1'' = Some ''DONE''"
    and "length (select_results (last (fst ?r)) ''job1'') = length three_accessions"
    by blast+
  with c all fresh ex fin rc show ?thesis
    by (simp add: all_commit_def three_accessions_def)
qed









end
